theory Spec2Isabelle
  imports
    Complex_Main
    "HOL-Library.Char_ord"
    "HOL-Library.List_Lexorder"
    "HOL-Library.Multiset"
    "HOL-Library.Log_Nat"
    "HOL-Library.Code_Target_Numeral"
begin

section \<open>JavaScript numbers\<close>

text \<open>
  Every number of the code is an IEEE 754 binary64 value: a finite value (a rational
  number), \<^verbatim>\<open>NaN\<close> or one of the two infinities. Negative zero is not told apart from zero;
  none of the operations modelled here distinguishes them.
\<close>

datatype jsnum = Num rat | NaN | PosInfinity | NegInfinity

definition pow2 :: "int \<Rightarrow> rat" where
  "pow2 k = (if k \<ge> 0 then 2 ^ nat k else 1 / 2 ^ nat (- k))"

text \<open>The exponent \<open>e\<close> with \<open>2^e \<le> a < 2^(e+1)\<close>, for positive \<open>a\<close>.\<close>

definition binade :: "rat \<Rightarrow> int" where
  "binade a =
     (let (p, q) = quotient_of a;
          e0 = bitlen p - bitlen q
      in if pow2 e0 \<le> a then e0 else e0 - 1)"

definition round_half_even :: "rat \<Rightarrow> int" where
  "round_half_even x =
     (let f = \<lfloor>x\<rfloor>;
          d = x - of_int f
      in if d < 1 / 2 then f
         else if d > 1 / 2 then f + 1
         else if even f then f else f + 1)"

text \<open>
  The binary64 value of an exact result: round to nearest, ties to even, on a significand
  of 53 bits, with gradual underflow below \<open>2^-1022\<close> and overflow to infinity from
  \<open>2^1024\<close> on.
\<close>

definition round_double :: "rat \<Rightarrow> jsnum" where
  "round_double x =
     (if x = 0 then Num 0
      else
        let a = \<bar>x\<bar>;
            e = max (binade a) (- 1022);
            q = pow2 (e - 52);
            m = round_half_even (a / q);
            r = of_int m * q
        in if r \<ge> pow2 1024 then (if x > 0 then PosInfinity else NegInfinity)
           else Num (if x > 0 then r else - r))"

fun js_add :: "jsnum \<Rightarrow> jsnum \<Rightarrow> jsnum" where
  "js_add (Num a) (Num b) = round_double (a + b)"
| "js_add NaN y = NaN"
| "js_add x NaN = NaN"
| "js_add PosInfinity NegInfinity = NaN"
| "js_add NegInfinity PosInfinity = NaN"
| "js_add PosInfinity y = PosInfinity"
| "js_add x PosInfinity = PosInfinity"
| "js_add NegInfinity y = NegInfinity"
| "js_add x NegInfinity = NegInfinity"

fun js_neg :: "jsnum \<Rightarrow> jsnum" where
  "js_neg (Num a) = Num (- a)"
| "js_neg NaN = NaN"
| "js_neg PosInfinity = NegInfinity"
| "js_neg NegInfinity = PosInfinity"

definition js_sub :: "jsnum \<Rightarrow> jsnum \<Rightarrow> jsnum" where
  "js_sub x y = js_add x (js_neg y)"

text \<open>The comparison \<^verbatim>\<open>x < y\<close>: false whenever an operand is \<^verbatim>\<open>NaN\<close>.\<close>

fun js_lt :: "jsnum \<Rightarrow> jsnum \<Rightarrow> bool" where
  "js_lt (Num a) (Num b) = (a < b)"
| "js_lt NaN y = False"
| "js_lt x NaN = False"
| "js_lt x NegInfinity = False"
| "js_lt NegInfinity y = True"
| "js_lt PosInfinity y = False"
| "js_lt x PosInfinity = True"

definition js_gt :: "jsnum \<Rightarrow> jsnum \<Rightarrow> bool" where
  "js_gt x y = js_lt y x"

text \<open>Strict equality \<^verbatim>\<open>x === y\<close> on numbers: \<^verbatim>\<open>NaN\<close> equals nothing.\<close>

definition js_strict_eq :: "jsnum \<Rightarrow> jsnum \<Rightarrow> bool" where
  "js_strict_eq x y = (x \<noteq> NaN \<and> x = y)"

text \<open>A number in a condition or on the left of \<^verbatim>\<open>||\<close>: zero and \<^verbatim>\<open>NaN\<close> are falsy.\<close>

definition falsy_num :: "jsnum \<Rightarrow> bool" where
  "falsy_num x = (x = Num 0 \<or> x = NaN)"

fun is_finite :: "jsnum \<Rightarrow> bool" where
  "is_finite (Num a) = True"
| "is_finite x = False"

text \<open>The exact value of a finite number (0 for the others, which have none).\<close>

fun num_value :: "jsnum \<Rightarrow> rat" where
  "num_value (Num a) = a"
| "num_value x = 0"

section \<open>JSON values and canonical serialization (packages/core/src/crypto/index.ts)\<close>

text \<open>
  A JavaScript value as far as \<^verbatim>\<open>JSON.stringify\<close> distinguishes it. An object is the list
  of its own enumerable properties in enumeration order.
\<close>

datatype json =
    JUndefined
  | JNull
  | JBool bool
  | JNum jsnum
  | JStr string
  | JArr "json list"
  | JObj "(string \<times> json) list"

text \<open>
  What the code takes from the platform and from the @noble libraries: the JSON rendering
  of a string and of a finite number, SHA-256 of the UTF-8 bytes of a string as lowercase hex, and
  Ed25519 signing (message, private key) and verification (message, signature, public key)
  on hex strings. They are parameters of the model.
\<close>

record js_env =
  QuoteJSONString :: "string \<Rightarrow> string"
  NumberToString :: "rat \<Rightarrow> string"
  sha256_hex :: "string \<Rightarrow> string"
  ed25519_sign :: "string \<Rightarrow> string \<Rightarrow> string"
  ed25519_verify :: "string \<Rightarrow> string \<Rightarrow> string \<Rightarrow> bool"

text \<open>
  Property order of an ordinary object: keys that are array indices (canonical decimal
  numerals below \<open>2^32 - 1\<close>) come first in ascending numeric order, the other string keys
  follow in insertion order. \<open>obj_set\<close> is the assignment \<^verbatim>\<open>obj[k] = v\<close>.
\<close>

definition is_digit :: "char \<Rightarrow> bool" where
  "is_digit c = (CHR ''0'' \<le> c \<and> c \<le> CHR ''9'')"

definition digits_value :: "string \<Rightarrow> nat" where
  "digits_value k = foldl (\<lambda>n c. 10 * n + (of_char c - 48)) 0 k"

definition array_index :: "string \<Rightarrow> nat option" where
  "array_index k =
     (if k \<noteq> [] \<and> list_all is_digit k \<and> (hd k \<noteq> CHR ''0'' \<or> k = ''0'')
         \<and> digits_value k < 4294967295
      then Some (digits_value k) else None)"

fun insert_index :: "nat \<Rightarrow> string \<Rightarrow> 'v \<Rightarrow> (string \<times> 'v) list \<Rightarrow> (string \<times> 'v) list" where
  "insert_index i k v [] = [(k, v)]"
| "insert_index i k v ((k', v') # rest) =
     (case array_index k' of
        Some j \<Rightarrow> if j < i then (k', v') # insert_index i k v rest
                  else (k, v) # (k', v') # rest
      | None \<Rightarrow> (k, v) # (k', v') # rest)"

definition obj_set :: "(string \<times> 'v) list \<Rightarrow> string \<Rightarrow> 'v \<Rightarrow> (string \<times> 'v) list" where
  "obj_set obj k v =
     (if k \<in> fst ` set obj
      then map (\<lambda>(k', v'). if k' = k then (k', v) else (k', v')) obj
      else case array_index k of
             Some i \<Rightarrow> insert_index i k v obj
           | None \<Rightarrow> obj @ [(k, v)])"

definition obj_get :: "(string \<times> json) list \<Rightarrow> string \<Rightarrow> json" where
  "obj_get obj k = (case map_of obj k of None \<Rightarrow> JUndefined | Some v \<Rightarrow> v)"

definition Object_keys :: "(string \<times> 'v) list \<Rightarrow> string list" where
  "Object_keys obj = map fst obj"

text \<open>
  The replacer of \<^verbatim>\<open>canonicalJson\<close>: a non-array object is replaced by a fresh object that
  receives the properties in the order of \<^verbatim>\<open>Object.keys(value).sort()\<close>; every other value is
  returned as it is.
\<close>

definition replacer :: "json \<Rightarrow> json" where
  "replacer value =
     (case value of
        JObj obj \<Rightarrow>
          JObj (foldl (\<lambda>sorted k. obj_set sorted k (obj_get obj k)) [] (sort (Object_keys obj)))
      | _ \<Rightarrow> value)"

definition join_commas :: "string list \<Rightarrow> string" where
  "join_commas parts =
     concat (case parts of [] \<Rightarrow> [] | p # ps \<Rightarrow> p # map (\<lambda>q. '','' @ q) ps)"

lemma set_insert_index: "set (insert_index i k v obj) = insert (k, v) (set obj)"
  by (induction obj) (auto split: option.splits if_splits)

lemma snd_set_obj_set: "snd ` set (obj_set obj k v) \<subseteq> insert v (snd ` set obj)"
  by (auto simp: obj_set_def set_insert_index split: option.splits if_splits)

lemma snd_set_build:
  "snd ` set (foldl (\<lambda>sorted k. obj_set sorted k (f k)) acc ks) \<subseteq> snd ` set acc \<union> f ` set ks"
proof (induction ks arbitrary: acc)
  case Nil
  then show ?case by simp
next
  case (Cons k ks)
  have "snd ` set (foldl (\<lambda>sorted k. obj_set sorted k (f k)) (obj_set acc k (f k)) ks)
        \<subseteq> snd ` set (obj_set acc k (f k)) \<union> f ` set ks"
    by (rule Cons.IH)
  also have "\<dots> \<subseteq> insert (f k) (snd ` set acc) \<union> f ` set ks"
    using snd_set_obj_set[of acc k "f k"] by blast
  finally show ?case by auto
qed

lemma obj_get_in: "k \<in> fst ` set obj \<Longrightarrow> obj_get obj k \<in> snd ` set obj"
  unfolding obj_get_def
  by (auto split: option.splits simp: map_of_eq_None_iff dest!: map_of_SomeD intro: rev_image_eqI)

lemma replacer_obj_values:
  assumes "replacer value = JObj obj'" "(k, v) \<in> set obj'"
  shows "\<exists>obj. value = JObj obj \<and> v \<in> snd ` set obj"
proof (cases "value")
  case (JObj obj)
  let ?f = "obj_get obj"
  from assms JObj
  have "v \<in> snd ` set (foldl (\<lambda>sorted k. obj_set sorted k (?f k)) [] (sort (Object_keys obj)))"
    by (auto simp: replacer_def intro: rev_image_eqI)
  then have "v \<in> ?f ` set (sort (Object_keys obj))"
    using snd_set_build[of ?f "[]" "sort (Object_keys obj)"] by auto
  then have "v \<in> snd ` set obj"
    using obj_get_in[of _ obj] by (auto simp: Object_keys_def)
  with JObj show ?thesis by simp
qed (use assms in \<open>auto simp: replacer_def\<close>)

text \<open>
  \<^verbatim>\<open>JSON.stringify(value, replacer)\<close>, the abstract operation SerializeJSONProperty: the
  replacer is applied to the value first, then the result is rendered; the properties of an
  object and the elements of an array go through the same operation. A number that is
  not finite renders as \<^verbatim>\<open>null\<close>. A property whose
  value renders to \<^verbatim>\<open>undefined\<close> is left out of an object and is \<^verbatim>\<open>null\<close> in an array.
  \<open>canonical\<close> says whether the replacer of \<^verbatim>\<open>canonicalJson\<close> is installed (\<open>False\<close> is the
  plain \<^verbatim>\<open>JSON.stringify(value)\<close> of the consensus module). The result \<open>None\<close> is
  \<^verbatim>\<open>undefined\<close>.
\<close>

function SerializeJSONProperty :: "js_env \<Rightarrow> bool \<Rightarrow> json \<Rightarrow> string option" where
  "SerializeJSONProperty e canonical value0 =
     (case (if canonical then replacer value0 else value0) of
        JUndefined \<Rightarrow> None
      | JNull \<Rightarrow> Some ''null''
      | JBool b \<Rightarrow> Some (if b then ''true'' else ''false'')
      | JNum n \<Rightarrow> Some (case n of Num r \<Rightarrow> NumberToString e r | _ \<Rightarrow> ''null'')
      | JStr s \<Rightarrow> Some (QuoteJSONString e s)
      | JArr elems \<Rightarrow>
          Some (''['' @ join_commas (map (\<lambda>x. case SerializeJSONProperty e canonical x of
                                                None \<Rightarrow> ''null'' | Some s \<Rightarrow> s) elems) @ '']'')
      | JObj obj \<Rightarrow>
          Some (''{'' @ join_commas (concat (map (\<lambda>(k, v).
                   case SerializeJSONProperty e canonical v of
                     None \<Rightarrow> []
                   | Some s \<Rightarrow> [QuoteJSONString e k @ '':'' @ s]) obj)) @ ''}''))"
  by pat_completeness auto
termination
proof (relation "measure (\<lambda>(e, canonical, value0). size value0)", goal_cases)
  case 1
  show ?case by simp
next
  case (2 e canonical value0 elems x)
  then have "value0 = JArr elems"
    by (cases value0) (auto simp: replacer_def split: if_splits)
  moreover have "size x < Suc (size_list size elems)"
    using 2(2) by (induction elems) auto
  ultimately show ?case by simp
next
  case (3 e canonical value0 obj kv k v)
  then have kv: "(k, v) \<in> set obj" by simp
  have "\<exists>obj0. value0 = JObj obj0 \<and> v \<in> snd ` set obj0"
  proof (cases canonical)
    case True
    with 3(1) have "replacer value0 = JObj obj" by simp
    from replacer_obj_values[OF this kv] show ?thesis .
  next
    case False
    with 3(1) kv show ?thesis by (auto intro: rev_image_eqI)
  qed
  then obtain obj0 where v0: "value0 = JObj obj0" and vin: "v \<in> snd ` set obj0" by blast
  have "size v < Suc (size_list (size_prod (\<lambda>_. 0) size) obj0)"
    using vin by (induction obj0) force+
  with v0 show ?case by simp
qed

declare SerializeJSONProperty.simps [simp del]

definition JSON_stringify :: "js_env \<Rightarrow> json \<Rightarrow> string option" where
  "JSON_stringify e value = SerializeJSONProperty e False value"

definition canonicalJson :: "js_env \<Rightarrow> json \<Rightarrow> string option" where
  "canonicalJson e obj = SerializeJSONProperty e True obj"

text \<open>
  \<^verbatim>\<open>hashData\<close>: a string is hashed as it is, anything else through its canonical JSON
  (\<^verbatim>\<open>TextEncoder.encode(undefined)\<close> is the empty byte string). Byte arrays and, in
  the object being serialized, the special property name \<^verbatim>\<open>__proto__\<close> are not modelled.
\<close>

definition hashData :: "js_env \<Rightarrow> json \<Rightarrow> string" where
  "hashData e data =
     (case data of
        JStr s \<Rightarrow> sha256_hex e s
      | _ \<Rightarrow> sha256_hex e (case canonicalJson e data of None \<Rightarrow> [] | Some canonical \<Rightarrow> canonical))"

text \<open>
  Two values that differ only in the order in which objects list their properties, at any
  depth: arrays correspond element by element, objects have the same set of (distinct)
  keys and corresponding values under each key, everything else is equal.
\<close>

fun reordered :: "json \<Rightarrow> json \<Rightarrow> bool" where
  "reordered (JArr xs) (JArr ys) = list_all2 reordered xs ys"
| "reordered (JObj o1) (JObj o2) =
     (distinct (map fst o1) \<and> distinct (map fst o2) \<and> set (map fst o1) = set (map fst o2)
      \<and> list_all (\<lambda>(k, v). reordered v (obj_get o2 k)) o1)"
| "reordered a b = (a = b)"

text \<open>No object, at any depth, lists a key twice (as is the case for every JavaScript object).\<close>

fun distinct_keys :: "json \<Rightarrow> bool" where
  "distinct_keys (JArr xs) = list_all distinct_keys xs"
| "distinct_keys (JObj obj) = (distinct (map fst obj) \<and> list_all (\<lambda>(k, v). distinct_keys v) obj)"
| "distinct_keys v = True"

definition signMessage :: "js_env \<Rightarrow> string \<Rightarrow> string \<Rightarrow> string" where
  "signMessage e message private_key = ed25519_sign e message private_key"

definition verifySignature :: "js_env \<Rightarrow> string \<Rightarrow> string \<Rightarrow> string \<Rightarrow> bool" where
  "verifySignature e message signature public_key = ed25519_verify e message signature public_key"

section \<open>Plain objects as tables\<close>

text \<open>
  The ledger and the identity registry keep their tables in plain objects and read them
  with \<^verbatim>\<open>table[key]\<close>. Such a read finds the own property of that name and otherwise what
  \<^verbatim>\<open>Object.prototype\<close> provides under it: a function, or for \<^verbatim>\<open>__proto__\<close> the prototype
  itself. An inherited value is a truthy object that has none of the fields of an entry
  (reading one gives \<^verbatim>\<open>undefined\<close>) and no method \<^verbatim>\<open>push\<close>. A table is a map from its own
  keys; \<open>js_get\<close> is the read. Fields written onto an inherited object do not belong to
  the table; what they mean for later reads is said where it matters. That a write onto
  \<^verbatim>\<open>Object.prototype\<close> itself (key \<^verbatim>\<open>__proto__\<close>) becomes visible through every other
  object is not modelled.
\<close>

definition Object_prototype_names :: "string list" where
  "Object_prototype_names =
     [''constructor'', ''__defineGetter__'', ''__defineSetter__'', ''hasOwnProperty'',
      ''__lookupGetter__'', ''__lookupSetter__'', ''isPrototypeOf'', ''propertyIsEnumerable'',
      ''toString'', ''valueOf'', ''__proto__'', ''toLocaleString'']"

datatype 'a property = Own 'a | Inherited | Absent

definition js_get :: "(string \<rightharpoonup> 'a) \<Rightarrow> string \<Rightarrow> 'a property" where
  "js_get table k =
     (case table k of
        Some v \<Rightarrow> Own v
      | None \<Rightarrow> if k \<in> set Object_prototype_names then Inherited else Absent)"

datatype JsException = TypeError

datatype 'e failure = Returned 'e | Thrown JsException

text \<open>
  \<^verbatim>\<open>if (!index[key]) index[key] = []; index[key].push(h)\<close>: an own array is extended, a
  missing one is created, and on an inherited value the call of \<^verbatim>\<open>push\<close> throws
  (\<open>None\<close>).
\<close>

definition push_index ::
  "string \<Rightarrow> string \<Rightarrow> (string \<rightharpoonup> string list) \<Rightarrow> (string \<rightharpoonup> string list) option" where
  "push_index key h index =
     (case js_get index key of
        Own hs \<Rightarrow> Some (index(key \<mapsto> hs @ [h]))
      | Absent \<Rightarrow> Some (index(key \<mapsto> [h]))
      | Inherited \<Rightarrow> None)"

section \<open>Transactions (packages/core/src/types/index.ts)\<close>

datatype TransactionType = transfer | mint | burn | stake | skill_create | skill_purchase

fun type_string :: "TransactionType \<Rightarrow> string" where
  "type_string transfer = ''transfer''"
| "type_string mint = ''mint''"
| "type_string burn = ''burn''"
| "type_string stake = ''stake''"
| "type_string skill_create = ''skill_create''"
| "type_string skill_purchase = ''skill_purchase''"

text \<open>
  The amount and the nonce are numbers as the code computes with them; the version and
  the timestamp, which are only hashed and stored, are integers.
\<close>

record Transaction =
  tx_version :: int
  tx_type :: TransactionType
  tx_from :: string
  tx_to :: "string option"
  tx_amount :: jsnum
  tx_nonce :: jsnum
  tx_timestamp :: int
  tx_data :: "json option"
  tx_signature :: string

text \<open>A string-valued optional field in a condition: absent and empty are both falsy.\<close>

definition truthy :: "string option \<Rightarrow> bool" where
  "truthy s = (case s of None \<Rightarrow> False | Some t \<Rightarrow> t \<noteq> [])"

definition hashTransaction :: "js_env \<Rightarrow> Transaction \<Rightarrow> string" where
  "hashTransaction e transaction =
     hashData e (JObj
       [(''version'', JNum (Num (of_int (tx_version transaction)))),
        (''type'', JStr (type_string (tx_type transaction))),
        (''from'', JStr (tx_from transaction)),
        (''to'', case tx_to transaction of None \<Rightarrow> JUndefined | Some r \<Rightarrow> JStr r),
        (''amount'', JNum (tx_amount transaction)),
        (''nonce'', JNum (tx_nonce transaction)),
        (''timestamp'', JNum (Num (of_int (tx_timestamp transaction)))),
        (''data'', case tx_data transaction of None \<Rightarrow> JUndefined | Some d \<Rightarrow> d)])"

definition verifyTransactionSignature :: "js_env \<Rightarrow> Transaction \<Rightarrow> bool" where
  "verifyTransactionSignature e transaction =
     verifySignature e (hashTransaction e transaction) (tx_signature transaction)
       (tx_from transaction)"

definition signTransaction :: "js_env \<Rightarrow> Transaction \<Rightarrow> string \<Rightarrow> string" where
  "signTransaction e transaction private_key =
     signMessage e (hashTransaction e transaction) private_key"

section \<open>Economic constraints (core economy module)\<close>

datatype EconomicError = AmountTooLarge | NegativeAmount | ZeroAmountTransfer | InsufficientBalance

definition MAX_SAFE_INTEGER :: rat where
  "MAX_SAFE_INTEGER = 9007199254740991"

definition transaction_fee :: rat where
  "transaction_fee = 1"

definition validateEconomicConstraints :: "Transaction \<Rightarrow> jsnum \<Rightarrow> EconomicError option" where
  "validateEconomicConstraints transaction sender_balance =
     (if js_gt (tx_amount transaction) (Num MAX_SAFE_INTEGER) then Some AmountTooLarge
      else if js_lt (tx_amount transaction) (Num 0) then Some NegativeAmount
      else if js_strict_eq (tx_amount transaction) (Num 0) \<and> tx_type transaction = transfer
        then Some ZeroAmountTransfer
      else if js_lt sender_balance (js_add (tx_amount transaction) (Num transaction_fee))
        then Some InsufficientBalance
      else None)"

section \<open>Ledger (packages/ledger/src/ledger.ts)\<close>

text \<open>
  The state is the in-memory state of an initialized ledger; reading it from and writing it
  to the JSON file (\<^verbatim>\<open>initialize\<close>, \<^verbatim>\<open>saveState\<close>) is not modelled. The digests that key
  the transaction log are 64 hexadecimal digits and never a name of \<^verbatim>\<open>Object.prototype\<close>,
  so that log is read as a map.
\<close>

record StoredAccount =
  public_key :: string
  balance :: jsnum
  nonce :: jsnum
  reputation :: real
  created_at :: int
  last_active :: int
  updated_at :: int
  stake_locked :: int
  stake_unlock_at :: "int option"

record StoredTransaction =
  stored_tx :: Transaction
  hash :: string
  stored_block_height :: int
  applied_at :: int

record LedgerState =
  version :: int
  block_height :: int
  accounts :: "string \<rightharpoonup> StoredAccount"
  transactions :: "string \<rightharpoonup> StoredTransaction"
  account_transactions :: "string \<rightharpoonup> string list"

datatype LedgerError =
    DuplicateTransaction
  | SenderNotFound
  | InvalidNonce jsnum jsnum
  | InvalidSignature
  | EconomicViolation EconomicError
  | RecipientNotFound
  | InsufficientBalanceForDebit

definition new_LedgerState :: LedgerState where
  "new_LedgerState =
     \<lparr> version = 1, block_height = 0, accounts = Map.empty, transactions = Map.empty,
       account_transactions = Map.empty \<rparr>"

text \<open>
  \<^verbatim>\<open>getAccount\<close> returns \<^verbatim>\<open>null\<close> (\<open>Absent\<close>), a copy of the account, or for an inherited
  name an object all of whose fields are \<^verbatim>\<open>undefined\<close>.
\<close>

definition getAccount :: "LedgerState \<Rightarrow> string \<Rightarrow> StoredAccount property" where
  "getAccount st pk = js_get (accounts st) pk"

text \<open>
  \<^verbatim>\<open>account?.balance || 0\<close>: the balance of an inherited object is \<^verbatim>\<open>undefined\<close>, or
  \<^verbatim>\<open>NaN\<close> once a transfer has added to it; both give 0.
\<close>

definition getBalance :: "LedgerState \<Rightarrow> string \<Rightarrow> jsnum" where
  "getBalance st pk =
     (case js_get (accounts st) pk of
        Own account \<Rightarrow> if falsy_num (balance account) then Num 0 else balance account
      | Inherited \<Rightarrow> Num 0
      | Absent \<Rightarrow> Num 0)"

text \<open>
  \<^verbatim>\<open>createAccount\<close> throws when \<^verbatim>\<open>accounts[public_key]\<close> is truthy, be it an account or an
  inherited value: the result is \<open>None\<close> then.
\<close>

definition createAccount :: "int \<Rightarrow> LedgerState \<Rightarrow> string \<Rightarrow> jsnum \<Rightarrow> LedgerState option" where
  "createAccount now st pk initial_balance =
     (case js_get (accounts st) pk of
        Absent \<Rightarrow>
          Some (st\<lparr> accounts := (accounts st)(pk \<mapsto>
                        \<lparr> public_key = pk, balance = initial_balance, nonce = Num 0,
                          reputation = 0, created_at = now, last_active = now,
                          updated_at = now, stake_locked = 0, stake_unlock_at = None \<rparr>),
                     account_transactions := (account_transactions st)(pk \<mapsto> []) \<rparr>)
      | _ \<Rightarrow> None)"

text \<open>
  The account objects live in the \<open>accounts\<close> table and are mutated in place through the
  references \<^verbatim>\<open>sender\<close> and \<^verbatim>\<open>recipient\<close>. A write through a reference is a write to the
  table entry of that key, so that sender and recipient are one object exactly when the two
  keys are equal. A write through a reference to an inherited value changes no entry of
  the table: \<open>modify_account\<close> leaves the state as it is when the key has no own entry.
\<close>

definition modify_account ::
  "string \<Rightarrow> (StoredAccount \<Rightarrow> StoredAccount) \<Rightarrow> LedgerState \<Rightarrow> LedgerState" where
  "modify_account pk f st =
     (case accounts st pk of
        None \<Rightarrow> st
      | Some account \<Rightarrow> st\<lparr> accounts := (accounts st)(pk \<mapsto> f account) \<rparr>)"

text \<open>
  Lines 168 to 188 of \<^verbatim>\<open>applyTransaction\<close>: the block guarded by
  \<^verbatim>\<open>tx.type === 'transfer' && tx.to\<close>. The result is the failure the block returns, if
  any, the state when the block is left, and the number of readings of \<^verbatim>\<open>Date.now()\<close> it
  has made; \<open>clock k\<close> is the k-th reading of the call. The recipient check passes for an
  account and for an inherited value alike.
\<close>

definition transfer_block ::
  "(nat \<Rightarrow> int) \<Rightarrow> LedgerState \<Rightarrow> Transaction \<Rightarrow> StoredAccount
     \<Rightarrow> LedgerError option \<times> LedgerState \<times> nat" where
  "transfer_block clock st tx sender =
     (case tx_to tx of
        Some to_key \<Rightarrow>
          if tx_type tx = transfer \<and> to_key \<noteq> [] then
            (case js_get (accounts st) to_key of
               Absent \<Rightarrow> (Some RecipientNotFound, st, 0)
             | _ \<Rightarrow>
                 let fee = Num 1;
                     totalDebit = js_add (tx_amount tx) fee
                 in if js_lt (balance sender) totalDebit
                    then (Some InsufficientBalanceForDebit, st, 0)
                    else
                      (None,
                       modify_account to_key (\<lambda>r. r\<lparr> updated_at := clock 2 \<rparr>)
                      (modify_account (tx_from tx)
                         (\<lambda>s. s\<lparr> nonce := tx_nonce tx, last_active := clock 0,
                                 updated_at := clock 1 \<rparr>)
                      (modify_account to_key
                         (\<lambda>r. r\<lparr> balance := js_add (balance r) (tx_amount tx) \<rparr>)
                      (modify_account (tx_from tx)
                         (\<lambda>s. s\<lparr> balance := js_sub (balance s) totalDebit \<rparr>)
                         st))),
                       3))
          else (None, st, 0)
      | None \<Rightarrow> (None, st, 0))"

text \<open>
  Lines 190 to 209: the stored record and the two per-account indices. \<open>k\<close> is the number
  of clock readings made before. The result is the exception that ends the call, if any,
  and the state reached.
\<close>

definition store_block ::
  "(nat \<Rightarrow> int) \<Rightarrow> nat \<Rightarrow> LedgerState \<Rightarrow> Transaction \<Rightarrow> string
     \<Rightarrow> JsException option \<times> LedgerState" where
  "store_block clock k st tx txHash =
     (let storedTx = \<lparr> stored_tx = tx, hash = txHash, stored_block_height = block_height st,
                       applied_at = clock k \<rparr>;
          st1 = st\<lparr> transactions := (transactions st)(txHash \<mapsto> storedTx) \<rparr>
      in case push_index (tx_from tx) txHash (account_transactions st1) of
           None \<Rightarrow> (Some TypeError, st1)
         | Some index1 \<Rightarrow>
             let st2 = st1\<lparr> account_transactions := index1 \<rparr>
             in (case tx_to tx of
                   Some to_key \<Rightarrow>
                     if to_key \<noteq> [] \<and> to_key \<noteq> tx_from tx then
                       (case push_index to_key txHash index1 of
                          None \<Rightarrow> (Some TypeError, st2)
                        | Some index2 \<Rightarrow> (None, st2\<lparr> account_transactions := index2 \<rparr>))
                     else (None, st2)
                 | None \<Rightarrow> (None, st2)))"

text \<open>
  \<^verbatim>\<open>applyTransaction\<close>: the result is how the call ends (\<open>Inr ()\<close> for
  \<^verbatim>\<open>{ success: true }\<close>, \<open>Inl (Returned err)\<close> for \<^verbatim>\<open>{ success: false, error }\<close>,
  \<open>Inl (Thrown x)\<close> for an exception) and the ledger state at that point. For a sender
  found only as an inherited value \<^verbatim>\<open>sender.nonce + 1\<close> is \<^verbatim>\<open>NaN\<close>, which no nonce equals.
\<close>

definition applyTransaction ::
  "js_env \<Rightarrow> (nat \<Rightarrow> int) \<Rightarrow> LedgerState \<Rightarrow> Transaction
     \<Rightarrow> (LedgerError failure + unit) \<times> LedgerState" where
  "applyTransaction e clock st tx =
     (let txHash = hashTransaction e tx in
      if transactions st txHash \<noteq> None then (Inl (Returned DuplicateTransaction), st)
      else case js_get (accounts st) (tx_from tx) of
        Absent \<Rightarrow> (Inl (Returned SenderNotFound), st)
      | Inherited \<Rightarrow> (Inl (Returned (InvalidNonce NaN (tx_nonce tx))), st)
      | Own sender \<Rightarrow>
          if \<not> js_strict_eq (tx_nonce tx) (js_add (nonce sender) (Num 1))
            then (Inl (Returned (InvalidNonce (js_add (nonce sender) (Num 1)) (tx_nonce tx))), st)
          else if \<not> verifyTransactionSignature e tx then (Inl (Returned InvalidSignature), st)
          else case validateEconomicConstraints tx (balance sender) of
            Some err \<Rightarrow> (Inl (Returned (EconomicViolation err)), st)
          | None \<Rightarrow>
              (case transfer_block clock st tx sender of
                 (Some err, st1, k) \<Rightarrow> (Inl (Returned err), st1)
               | (None, st1, k) \<Rightarrow>
                   (case store_block clock k st1 tx txHash of
                      (Some x, st2) \<Rightarrow> (Inl (Thrown x), st2)
                    | (None, st2) \<Rightarrow> (Inr (), st2))))"

text \<open>
  The balance a finite number stands for, its change over a call, and the sum of the
  balances of a list of accounts.
\<close>

definition balance_change :: "LedgerState \<Rightarrow> LedgerState \<Rightarrow> string \<Rightarrow> rat" where
  "balance_change st st' pk = num_value (getBalance st' pk) - num_value (getBalance st pk)"

definition total_supply :: "LedgerState \<Rightarrow> string list \<Rightarrow> rat" where
  "total_supply st pks = sum_list (map (\<lambda>pk. num_value (getBalance st pk)) pks)"

section \<open>Identity registry (identity package)\<close>

record BotMetadata =
  meta_name :: "string option"
  meta_description :: "string option"
  meta_version :: "string option"
  meta_creator :: "string option"
  meta_capabilities :: "string list option"

record BotIdentity =
  bot_public_key :: string
  bot_private_key :: string
  bot_created_at :: int
  bot_reputation :: real
  staked_amount :: int
  stake_locked_until :: int
  bot_attestations :: "string list"
  metadata :: "BotMetadata option"

text \<open>
  The two tables of the registry. \<open>inherited_stake\<close> is not part of the stored object: it
  holds, per inherited name, the \<^verbatim>\<open>staked_amount\<close> and \<^verbatim>\<open>stake_locked_until\<close> that
  \<^verbatim>\<open>registerBot\<close> has written onto the inherited value of that name, which a later
  \<^verbatim>\<open>isRegistered\<close> reads back.
\<close>

record IdentityStorage =
  bots :: "string \<rightharpoonup> BotIdentity"
  attestations :: "string \<rightharpoonup> string list"
  storage_version :: int
  inherited_stake :: "string \<rightharpoonup> int \<times> int"

text \<open>The table \<^verbatim>\<open>STAKE_REQUIREMENTS\<close> of the economy module.\<close>

definition registration :: int where
  "registration = 50"

definition registration_lock_days :: int where
  "registration_lock_days = 30"

definition attestation_reduction :: int where
  "attestation_reduction = 25"

definition minimum_reputation_for_attestation :: real where
  "minimum_reputation_for_attestation = 100"

datatype RegisterError = IdentityNotFound | InsufficientStake int int

text \<open>
  \<^verbatim>\<open>registerBot\<close>. On an inherited value the two stake fields are written onto that value,
  and \<^verbatim>\<open>identity.attestations.push\<close> throws, there being no such array. With a registered
  identity, \<^verbatim>\<open>this.storage.attestations[attestation].push\<close> throws when the attester's name
  is an inherited one.
\<close>

definition registerBot ::
  "int \<Rightarrow> IdentityStorage \<Rightarrow> string \<Rightarrow> int \<Rightarrow> string option
     \<Rightarrow> (RegisterError failure + unit) \<times> IdentityStorage" where
  "registerBot now st pk stake_amount attestation =
     (let required_stake =
            (if truthy attestation then attestation_reduction else registration);
          locked_until = now + registration_lock_days * 24 * 60 * 60 * 1000
      in case js_get (bots st) pk of
           Absent \<Rightarrow> (Inl (Returned IdentityNotFound), st)
         | Inherited \<Rightarrow>
             if stake_amount < required_stake
             then (Inl (Returned (InsufficientStake required_stake stake_amount)), st)
             else
               let st1 = st\<lparr> inherited_stake :=
                             (inherited_stake st)(pk \<mapsto> (stake_amount, locked_until)) \<rparr>
               in if truthy attestation then (Inl (Thrown TypeError), st1) else (Inr (), st1)
         | Own identity \<Rightarrow>
             if stake_amount < required_stake
             then (Inl (Returned (InsufficientStake required_stake stake_amount)), st)
             else
               let identity1 = identity\<lparr> staked_amount := stake_amount,
                                          stake_locked_until := locked_until \<rparr>
               in case attestation of
                    Some a \<Rightarrow>
                      if a \<noteq> [] then
                        let st1 = st\<lparr> bots := (bots st)(pk \<mapsto>
                                    identity1\<lparr> bot_attestations :=
                                                 bot_attestations identity1 @ [a] \<rparr>) \<rparr>
                        in (case push_index a pk (attestations st1) of
                              None \<Rightarrow> (Inl (Thrown TypeError), st1)
                            | Some index \<Rightarrow> (Inr (), st1\<lparr> attestations := index \<rparr>))
                      else (Inr (), st\<lparr> bots := (bots st)(pk \<mapsto> identity1) \<rparr>)
                  | None \<Rightarrow> (Inr (), st\<lparr> bots := (bots st)(pk \<mapsto> identity1) \<rparr>))"

text \<open>
  The reputation of an inherited value is \<^verbatim>\<open>undefined\<close>, which is not \<^verbatim>\<open>>= 100\<close>
  (\<^verbatim>\<open>updateReputation\<close>, which could write one, is not modelled).
\<close>

definition canAttest :: "IdentityStorage \<Rightarrow> string \<Rightarrow> bool" where
  "canAttest st attester_public_key =
     (case js_get (bots st) attester_public_key of
        Own attester \<Rightarrow> bot_reputation attester \<ge> minimum_reputation_for_attestation
      | Inherited \<Rightarrow> False
      | Absent \<Rightarrow> False)"

definition isRegistered :: "IdentityStorage \<Rightarrow> int \<Rightarrow> string \<Rightarrow> bool" where
  "isRegistered st now pk =
     (case js_get (bots st) pk of
        Own identity \<Rightarrow>
          staked_amount identity \<ge> registration \<and> stake_locked_until identity > now
      | Inherited \<Rightarrow>
          (case inherited_stake st pk of
             None \<Rightarrow> False
           | Some (staked, locked_until) \<Rightarrow> staked \<ge> registration \<and> locked_until > now)
      | Absent \<Rightarrow> False)"

section \<open>PBFT validator (validator package, pbft module)\<close>

datatype ConsensusMessageType = pre_prepare | prepare | commit

fun message_type_string :: "ConsensusMessageType \<Rightarrow> string" where
  "message_type_string pre_prepare = ''pre-prepare''"
| "message_type_string prepare = ''prepare''"
| "message_type_string commit = ''commit''"

record ConsensusMessage =
  msg_type :: ConsensusMessageType
  msg_view :: nat
  msg_sequence :: nat
  msg_digest :: string
  msg_validator :: string
  msg_signature :: string

record PeerInfo =
  peer_id :: string
  peer_public_key :: string
  endpoint :: string

record ValidatorConfig =
  validator_id :: string
  config_public_key :: string
  config_private_key :: string
  peers :: "PeerInfo list"
  view_timeout_ms :: int

text \<open>The vote tables are \<^verbatim>\<open>Map\<close> objects, whose keys are exactly the ones set.\<close>

record PBFTState =
  view :: nat
  sequence :: nat
  is_leader :: bool
  leader_id :: string
  prepared :: "string \<rightharpoonup> string set"
  committed :: "string \<rightharpoonup> string set"
  checkpoint :: nat

record PendingTransaction =
  pending_tx :: Transaction
  received_at :: int
  pre_prepared :: bool
  prepared_flag :: bool
  committed_flag :: bool

text \<open>
  The validator object. The handlers are asynchronous methods that run one after another
  on a single execution context; each is a function from the object's state to the
  exception that ends the call, if any, and the state after the call.
  \<open>commit_notifications\<close> is the trace of the commit callbacks: the transactions they were
  invoked with, in order.
\<close>

record PBFTValidator =
  config :: ValidatorConfig
  ledger :: LedgerState
  state :: PBFTState
  pending :: "string \<rightharpoonup> PendingTransaction"
  message_log :: "ConsensusMessage list"
  commit_notifications :: "Transaction list"

definition electLeader :: "ValidatorConfig \<Rightarrow> nat \<Rightarrow> string" where
  "electLeader cfg v =
     (if peers cfg = [] then validator_id cfg
      else let all_validators = validator_id cfg # map peer_id (peers cfg);
               leader_index = v mod length all_validators
           in all_validators ! leader_index)"

definition new_PBFTValidator :: "ValidatorConfig \<Rightarrow> LedgerState \<Rightarrow> PBFTValidator" where
  "new_PBFTValidator cfg l =
     (let leader = electLeader cfg 0
      in \<lparr> config = cfg, ledger = l,
           state = \<lparr> view = 0, sequence = 0, is_leader = (leader = validator_id cfg),
                     leader_id = leader, prepared = Map.empty, committed = Map.empty,
                     checkpoint = 0 \<rparr>,
           pending = Map.empty, message_log = [], commit_notifications = [] \<rparr>)"

text \<open>
  \<^verbatim>\<open>JSON.stringify(message)\<close>: the properties in the order in which the module writes
  them.
\<close>

definition message_object :: "ConsensusMessage \<Rightarrow> json" where
  "message_object m =
     JObj [(''type'', JStr (message_type_string (msg_type m))),
           (''view'', JNum (Num (of_nat (msg_view m)))),
           (''sequence'', JNum (Num (of_nat (msg_sequence m)))),
           (''digest'', JStr (msg_digest m)),
           (''validator'', JStr (msg_validator m)),
           (''signature'', JStr (msg_signature m))]"

definition stringify_message :: "js_env \<Rightarrow> ConsensusMessage \<Rightarrow> string" where
  "stringify_message e m =
     (case JSON_stringify e (message_object m) of None \<Rightarrow> [] | Some s \<Rightarrow> s)"

definition sign_consensus_message :: "js_env \<Rightarrow> PBFTValidator \<Rightarrow> ConsensusMessage \<Rightarrow> ConsensusMessage" where
  "sign_consensus_message e v m =
     m\<lparr> msg_signature := signMessage e (stringify_message e m) (config_private_key (config v)) \<rparr>"

definition verifyMessage :: "js_env \<Rightarrow> PBFTValidator \<Rightarrow> ConsensusMessage \<Rightarrow> bool" where
  "verifyMessage e v message =
     (let msg_copy = message\<lparr> msg_signature := [] \<rparr>;
          signature = msg_signature message;
          pk = (if msg_validator message = validator_id (config v)
                then Some (config_public_key (config v))
                else map_option peer_public_key
                       (find (\<lambda>p. peer_id p = msg_validator message) (peers (config v))))
      in if \<not> truthy pk then False
         else case pk of
                None \<Rightarrow> False
              | Some k \<Rightarrow> verifySignature e (stringify_message e msg_copy) signature k)"

definition quorum :: "PBFTValidator \<Rightarrow> nat" where
  "quorum v =
     (let all_validators = length (peers (config v)) + 1;
          f = (all_validators - 1) div 3
      in 2 * f + 1)"

definition add_vote :: "string \<Rightarrow> string \<Rightarrow> (string \<rightharpoonup> string set) \<Rightarrow> (string \<rightharpoonup> string set)" where
  "add_vote tx_hash validator votes =
     votes(tx_hash \<mapsto> insert validator (case votes tx_hash of None \<Rightarrow> {} | Some s \<Rightarrow> s))"

definition vote_count :: "string \<Rightarrow> (string \<rightharpoonup> string set) \<Rightarrow> nat" where
  "vote_count tx_hash votes = (case votes tx_hash of None \<Rightarrow> 0 | Some s \<Rightarrow> card s)"

text \<open>
  \<^verbatim>\<open>commitTransaction\<close>: an exception of \<^verbatim>\<open>applyTransaction\<close> is not caught here nor in any
  caller, and no caller does anything after the call it makes; the exception ends the
  whole handler.
\<close>

definition commitTransaction ::
  "js_env \<Rightarrow> (nat \<Rightarrow> int) \<Rightarrow> PBFTValidator \<Rightarrow> string \<Rightarrow> Transaction
     \<Rightarrow> JsException option \<times> PBFTValidator" where
  "commitTransaction e clock v tx_hash tx =
     (case applyTransaction e clock (ledger v) tx of
        (Inr u, l) \<Rightarrow>
          (None,
           v\<lparr> ledger := l,
              pending := (pending v)(tx_hash := None),
              state := (state v)\<lparr> prepared := (prepared (state v))(tx_hash := None),
                                  committed := (committed (state v))(tx_hash := None) \<rparr>,
              commit_notifications := commit_notifications v @ [tx] \<rparr>)
      | (Inl (Returned err), l) \<Rightarrow> (None, v\<lparr> ledger := l \<rparr>)
      | (Inl (Thrown x), l) \<Rightarrow> (Some x, v\<lparr> ledger := l \<rparr>))"

definition handleCommit ::
  "js_env \<Rightarrow> (nat \<Rightarrow> int) \<Rightarrow> PBFTValidator \<Rightarrow> ConsensusMessage
     \<Rightarrow> JsException option \<times> PBFTValidator" where
  "handleCommit e clock v message =
     (if msg_type message \<noteq> commit then (None, v)
      else if \<not> verifyMessage e v message then (None, v)
      else if msg_view message \<noteq> view (state v) then (None, v)
      else
        let tx_hash = msg_digest message;
            v1 = v\<lparr> state := (state v)\<lparr> committed :=
                      add_vote tx_hash (msg_validator message) (committed (state v)) \<rparr> \<rparr>;
            commit_count = vote_count tx_hash (committed (state v1)) + 1
        in if commit_count \<ge> quorum v1 then
             (case pending v1 tx_hash of
                Some p \<Rightarrow>
                  if \<not> committed_flag p then
                    commitTransaction e clock
                      (v1\<lparr> pending := (pending v1)(tx_hash \<mapsto> p\<lparr> committed_flag := True \<rparr>) \<rparr>)
                      tx_hash (pending_tx p)
                  else (None, v1)
              | None \<Rightarrow> (None, v1))
           else (None, v1))"

definition broadcastCommit ::
  "js_env \<Rightarrow> (nat \<Rightarrow> int) \<Rightarrow> PBFTValidator \<Rightarrow> string \<Rightarrow> JsException option \<times> PBFTValidator" where
  "broadcastCommit e clock v tx_hash =
     (let message = sign_consensus_message e v
            \<lparr> msg_type = commit, msg_view = view (state v), msg_sequence = sequence (state v),
              msg_digest = tx_hash, msg_validator = validator_id (config v),
              msg_signature = [] \<rparr>
      in handleCommit e clock (v\<lparr> message_log := message_log v @ [message] \<rparr>) message)"

definition handlePrepare ::
  "js_env \<Rightarrow> (nat \<Rightarrow> int) \<Rightarrow> PBFTValidator \<Rightarrow> ConsensusMessage
     \<Rightarrow> JsException option \<times> PBFTValidator" where
  "handlePrepare e clock v message =
     (if msg_type message \<noteq> prepare then (None, v)
      else if \<not> verifyMessage e v message then (None, v)
      else if msg_view message \<noteq> view (state v) then (None, v)
      else
        let tx_hash = msg_digest message;
            v1 = v\<lparr> state := (state v)\<lparr> prepared :=
                      add_vote tx_hash (msg_validator message) (prepared (state v)) \<rparr> \<rparr>;
            prepare_count = vote_count tx_hash (prepared (state v1)) + 1
        in if prepare_count \<ge> quorum v1 then
             (case pending v1 tx_hash of
                Some p \<Rightarrow>
                  if \<not> prepared_flag p then
                    broadcastCommit e clock
                      (v1\<lparr> pending := (pending v1)(tx_hash \<mapsto> p\<lparr> prepared_flag := True \<rparr>) \<rparr>)
                      tx_hash
                  else (None, v1)
              | None \<Rightarrow> (None, v1))
           else (None, v1))"

definition broadcastPrepare ::
  "js_env \<Rightarrow> (nat \<Rightarrow> int) \<Rightarrow> PBFTValidator \<Rightarrow> string \<Rightarrow> JsException option \<times> PBFTValidator" where
  "broadcastPrepare e clock v tx_hash =
     (let message = sign_consensus_message e v
            \<lparr> msg_type = prepare, msg_view = view (state v), msg_sequence = sequence (state v),
              msg_digest = tx_hash, msg_validator = validator_id (config v),
              msg_signature = [] \<rparr>
      in handlePrepare e clock (v\<lparr> message_log := message_log v @ [message] \<rparr>) message)"

definition handlePrePrepare ::
  "js_env \<Rightarrow> (nat \<Rightarrow> int) \<Rightarrow> PBFTValidator \<Rightarrow> ConsensusMessage \<Rightarrow> Transaction
     \<Rightarrow> JsException option \<times> PBFTValidator" where
  "handlePrePrepare e clock v message tx =
     (if msg_type message \<noteq> pre_prepare then (None, v)
      else if \<not> verifyMessage e v message then (None, v)
      else if msg_view message \<noteq> view (state v) then (None, v)
      else if msg_validator message \<noteq> leader_id (state v) then (None, v)
      else case pending v (msg_digest message) of
             None \<Rightarrow> (None, v)
           | Some p \<Rightarrow>
               broadcastPrepare e clock
                 (v\<lparr> pending := (pending v)(msg_digest message \<mapsto> p\<lparr> pre_prepared := True \<rparr>) \<rparr>)
                 (msg_digest message))"

definition broadcastPrePrepare ::
  "js_env \<Rightarrow> (nat \<Rightarrow> int) \<Rightarrow> PBFTValidator \<Rightarrow> string \<Rightarrow> Transaction
     \<Rightarrow> JsException option \<times> PBFTValidator" where
  "broadcastPrePrepare e clock v tx_hash tx =
     (let v1 = v\<lparr> state := (state v)\<lparr> sequence := sequence (state v) + 1 \<rparr> \<rparr>;
          message = sign_consensus_message e v1
            \<lparr> msg_type = pre_prepare, msg_view = view (state v), msg_sequence = sequence (state v),
              msg_digest = tx_hash, msg_validator = validator_id (config v),
              msg_signature = [] \<rparr>
      in handlePrePrepare e clock (v1\<lparr> message_log := message_log v1 @ [message] \<rparr>) message tx)"

datatype SubmitError =
  AlreadyPending | SubmitInvalidSignature | SubmitSenderNotFound | SubmitInvalidNonce jsnum

definition validateTransaction :: "js_env \<Rightarrow> PBFTValidator \<Rightarrow> Transaction \<Rightarrow> SubmitError option" where
  "validateTransaction e v tx =
     (if \<not> verifySignature e (hashTransaction e tx) (tx_signature tx) (tx_from tx)
        then Some SubmitInvalidSignature
      else case getAccount (ledger v) (tx_from tx) of
             Absent \<Rightarrow> Some SubmitSenderNotFound
           | Inherited \<Rightarrow> Some (SubmitInvalidNonce NaN)
           | Own account \<Rightarrow>
               if \<not> js_strict_eq (tx_nonce tx) (js_add (nonce account) (Num 1))
               then Some (SubmitInvalidNonce (js_add (nonce account) (Num 1)))
               else None)"

text \<open>\<open>now\<close> is the reading of \<^verbatim>\<open>Date.now()\<close> stored as \<^verbatim>\<open>received_at\<close>.\<close>

definition submitTransaction ::
  "js_env \<Rightarrow> (nat \<Rightarrow> int) \<Rightarrow> int \<Rightarrow> PBFTValidator \<Rightarrow> Transaction
     \<Rightarrow> (SubmitError failure + unit) \<times> PBFTValidator" where
  "submitTransaction e clock now v tx =
     (let tx_hash = hashTransaction e tx in
      if pending v tx_hash \<noteq> None then (Inl (Returned AlreadyPending), v)
      else case validateTransaction e v tx of
             Some err \<Rightarrow> (Inl (Returned err), v)
           | None \<Rightarrow>
               let v1 = v\<lparr> pending := (pending v)(tx_hash \<mapsto>
                              \<lparr> pending_tx = tx, received_at = now, pre_prepared = False,
                                prepared_flag = False, committed_flag = False \<rparr>) \<rparr>
               in if is_leader (state v1)
                  then (case broadcastPrePrepare e clock v1 tx_hash tx of
                          (None, v2) \<Rightarrow> (Inr (), v2)
                        | (Some x, v2) \<Rightarrow> (Inl (Thrown x), v2))
                  else (Inr (), v1))"

section \<open>Concrete inputs\<close>

text \<open>
  An instance of the platform parameters on which the model runs: decimal numerals (the
  numbers of the concrete inputs are integers), strings
  quoted without escapes, the identity as digest, and a signature scheme in which a key
  pair is \<open>(k, k)\<close> and the signature of \<open>m\<close> under \<open>k\<close> is \<open>k:m\<close>, so that a signature
  verifies exactly under the key that made it.
\<close>

function decimal_nat :: "nat \<Rightarrow> string" where
  "decimal_nat n =
     (if n < 10 then [char_of (48 + n)]
      else decimal_nat (n div 10) @ [char_of (48 + n mod 10)])"
  by pat_completeness auto
termination
  by (relation "measure id") auto

declare decimal_nat.simps [simp del]

definition decimal :: "int \<Rightarrow> string" where
  "decimal i = (if i < 0 then ''-'' @ decimal_nat (nat (- i)) else decimal_nat (nat i))"

definition test_env :: js_env where
  "test_env =
     \<lparr> QuoteJSONString = (\<lambda>s. [CHR 0x22] @ s @ [CHR 0x22]),
       NumberToString = (\<lambda>r. decimal \<lfloor>r\<rfloor>),
       sha256_hex = (\<lambda>s. s),
       ed25519_sign = (\<lambda>message private_key. private_key @ '':'' @ message),
       ed25519_verify = (\<lambda>message signature pk. signature = pk @ '':'' @ message) \<rparr>"

definition test_clock :: "nat \<Rightarrow> int" where
  "test_clock k = 1700000000000 + int k"

definition signed :: "Transaction \<Rightarrow> string \<Rightarrow> Transaction" where
  "signed tx private_key = tx\<lparr> tx_signature := signTransaction test_env tx private_key \<rparr>"

definition account_with :: "string \<Rightarrow> rat \<Rightarrow> StoredAccount" where
  "account_with pk b =
     \<lparr> public_key = pk, balance = Num b, nonce = Num 0, reputation = 0, created_at = 0,
       last_active = 0, updated_at = 0, stake_locked = 0, stake_unlock_at = None \<rparr>"

definition ledger_two :: "string \<Rightarrow> rat \<Rightarrow> string \<Rightarrow> rat \<Rightarrow> LedgerState" where
  "ledger_two pk1 b1 pk2 b2 =
     new_LedgerState\<lparr> accounts := [pk1 \<mapsto> account_with pk1 b1, pk2 \<mapsto> account_with pk2 b2],
                      account_transactions := [pk1 \<mapsto> [], pk2 \<mapsto> []] \<rparr>"

definition unsigned_tx :: "TransactionType \<Rightarrow> string \<Rightarrow> string option \<Rightarrow> rat \<Rightarrow> rat \<Rightarrow> Transaction" where
  "unsigned_tx ty sender recipient amount n =
     \<lparr> tx_version = 1, tx_type = ty, tx_from = sender, tx_to = recipient,
       tx_amount = Num amount, tx_nonce = Num n, tx_timestamp = 1700000000000, tx_data = None, tx_signature = [] \<rparr>"

definition signed_message :: "ConsensusMessageType \<Rightarrow> nat \<Rightarrow> nat \<Rightarrow> string \<Rightarrow> string \<Rightarrow> string \<Rightarrow> ConsensusMessage" where
  "signed_message ty v s digest vid private_key =
     (let m = \<lparr> msg_type = ty, msg_view = v, msg_sequence = s, msg_digest = digest,
                msg_validator = vid, msg_signature = [] \<rparr>
      in m\<lparr> msg_signature := signMessage test_env (stringify_message test_env m) private_key \<rparr>)"

definition four_validators :: "string \<Rightarrow> ValidatorConfig" where
  "four_validators own_public_key =
     \<lparr> validator_id = ''validator-1'', config_public_key = own_public_key,
       config_private_key = ''a1'',
       peers = [\<lparr> peer_id = ''validator-2'', peer_public_key = ''a2'', endpoint = ''ws://v2'' \<rparr>,
                \<lparr> peer_id = ''validator-3'', peer_public_key = ''a3'', endpoint = ''ws://v3'' \<rparr>,
                \<lparr> peer_id = ''validator-4'', peer_public_key = ''a4'', endpoint = ''ws://v4'' \<rparr>],
       view_timeout_ms = 5000 \<rparr>"

definition identities_P_A :: IdentityStorage where
  "identities_P_A =
     \<lparr> bots = [''b0'' \<mapsto> \<lparr> bot_public_key = ''b0'', bot_private_key = ''b0'', bot_created_at = 0,
                            bot_reputation = 0, staked_amount = 0, stake_locked_until = 0,
                            bot_attestations = [], metadata = None \<rparr>,
               ''a0'' \<mapsto> \<lparr> bot_public_key = ''a0'', bot_private_key = ''a0'', bot_created_at = 0,
                            bot_reputation = 0, staked_amount = 0, stake_locked_until = 0,
                            bot_attestations = [], metadata = None \<rparr>],
       attestations = Map.empty, storage_version = 1, inherited_stake = Map.empty \<rparr>"

text \<open>
  A validator with three peers that holds the two-account ledger, the transfer of
  scenario 1 submitted to it, and PREPARE and COMMIT messages for that transfer as a peer
  signs them. The validator's private key is \<open>a1\<close>; its configured public key is a
  parameter.
\<close>

definition demo_tx :: Transaction where
  "demo_tx = signed (unsigned_tx transfer ''5e'' (Some ''4e'') 100 1) ''5e''"

definition node_start :: "string \<Rightarrow> PBFTValidator" where
  "node_start own_public_key =
     new_PBFTValidator (four_validators own_public_key) (ledger_two ''5e'' 1000 ''4e'' 100)"

definition node_submitted :: "string \<Rightarrow> PBFTValidator" where
  "node_submitted own_public_key =
     snd (submitTransaction test_env test_clock 1700000000000 (node_start own_public_key) demo_tx)"

definition peer_prepare :: "string \<Rightarrow> string \<Rightarrow> ConsensusMessage" where
  "peer_prepare vid private_key =
     signed_message prepare 0 1 (hashTransaction test_env demo_tx) vid private_key"

definition peer_commit :: "string \<Rightarrow> string \<Rightarrow> ConsensusMessage" where
  "peer_commit vid private_key =
     signed_message commit 0 1 (hashTransaction test_env demo_tx) vid private_key"

definition object_ba :: json where
  "object_ba = JObj [(''b'', JNum (Num 1)), (''10'', JNull),
                     (''a'', JObj [(''y'', JBool True), (''x'', JArr [JStr ''q'', JUndefined])])]"

definition object_ab :: json where
  "object_ab = JObj [(''a'', JObj [(''x'', JArr [JStr ''q'', JUndefined]), (''y'', JBool True)]),
                     (''10'', JNull), (''b'', JNum (Num 1))]"

section \<open>Properties\<close>

subsection \<open>Rounding\<close>

lemma pow2_nonpos: "k \<le> 0 \<Longrightarrow> pow2 k = 1 / 2 ^ nat (- k)"
  by (auto simp: pow2_def)

lemma pow2_nonneg: "0 \<le> k \<Longrightarrow> pow2 k = 2 ^ nat k"
  by (simp add: pow2_def)

lemma round_half_even_of_int: "round_half_even (of_int z) = z"
  by (simp add: round_half_even_def)

lemma binade_of_int:
  assumes "0 < n"
  shows "binade (of_int n) = bitlen n - 1"
proof -
  from assms have b: "1 \<le> bitlen n" by (auto simp: bitlen_alt_def)
  from bitlen_bounds[OF assms] have "2 ^ nat (bitlen n - 1) \<le> n" by simp
  then have "(of_int (2 ^ nat (bitlen n - 1)) :: rat) \<le> of_int n"
    by (simp only: of_int_le_iff)
  then have "pow2 (bitlen n - 1) \<le> of_int n"
    using b by (simp add: pow2_nonneg)
  moreover have "bitlen 1 = 1" by (simp add: bitlen_alt_def)
  ultimately show ?thesis
    by (simp add: binade_def)
qed

lemma bitlen_le_53:
  assumes "0 < n" "n < 2 ^ 53"
  shows "bitlen n \<le> 53"
proof (rule ccontr)
  assume "\<not> bitlen n \<le> 53"
  then have "54 \<le> bitlen n" by simp
  then have "53 \<le> nat (bitlen n - 1)" by simp
  then have "(2::int) ^ 53 \<le> 2 ^ nat (bitlen n - 1)"
    by (rule power_increasing) simp
  also from bitlen_bounds[OF assms(1)] have "\<dots> \<le> n" by simp
  finally show False using assms(2) by simp
qed

lemma round_double_pos_int:
  assumes "0 < n" "n < 2 ^ 53"
  shows "round_double (of_int n) = Num (of_int n)"
proof -
  let ?e = "bitlen n - 1"
  from assms(1) have b1: "1 \<le> bitlen n" by (auto simp: bitlen_alt_def)
  from bitlen_le_53[OF assms] have b2: "bitlen n \<le> 53" .
  let ?k = "nat (52 - ?e)"
  have q: "pow2 (?e - 52) = 1 / 2 ^ ?k"
    using b2 by (simp add: pow2_nonpos)
  have scaled: "(of_int n :: rat) / pow2 (?e - 52) = of_int (n * 2 ^ ?k)"
    by (subst q) simp
  have unscaled: "(of_int (n * 2 ^ ?k) :: rat) * pow2 (?e - 52) = of_int n"
    by (subst q) simp
  have small: "(of_int n :: rat) < pow2 1024"
  proof -
    have "(of_int n :: rat) < of_int (2 ^ 53)" using assms(2) by (simp only: of_int_less_iff)
    also have "\<dots> \<le> 2 ^ 1024" by simp
    finally show ?thesis by (simp add: pow2_nonneg)
  qed
  have m: "max ?e (- 1022) = ?e" using b1 by simp
  from assms(1) have pos: "(0::rat) < of_int n" "\<bar>of_int n :: rat\<bar> = of_int n" by simp_all
  show ?thesis
    unfolding round_double_def Let_def pos(2) binade_of_int[OF assms(1)] m scaled
      round_half_even_of_int unscaled
    using pos(1) small by simp
qed

lemma round_double_2_53: "round_double 9007199254740992 = Num 9007199254740992"
proof -
  have bl: "bitlen 9007199254740992 = 54"
    using bitlen_twopow_add_eq[of 0 53] by simp
  have "binade (of_int 9007199254740992) = 53"
    using binade_of_int[of 9007199254740992] bl by simp
  then have b: "binade 9007199254740992 = 53" by simp
  have "round_half_even (of_int 4503599627370496) = 4503599627370496"
    by (rule round_half_even_of_int)
  then have r: "round_half_even 4503599627370496 = 4503599627370496" by simp
  show ?thesis
    by (simp add: round_double_def Let_def b pow2_def r)
qed

lemma round_double_neg:
  "round_double (- x) = js_neg (round_double x)"
  by (auto simp: round_double_def Let_def)

text \<open>
  Every integer of magnitude at most \<open>2^53\<close> is a binary64 value: rounding leaves it as it
  is.
\<close>

lemma round_double_integer:
  assumes "\<bar>n\<bar> \<le> 2 ^ 53"
  shows "round_double (of_int n) = Num (of_int n)"
proof -
  have pos: "round_double (of_int m) = Num (of_int m)" if "0 < m" "m \<le> 2 ^ 53" for m :: int
  proof (cases "m = 2 ^ 53")
    case True
    then show ?thesis using round_double_2_53 by simp
  next
    case False
    with that show ?thesis by (intro round_double_pos_int) auto
  qed
  consider "n = 0" | "0 < n" | "n < 0" by linarith
  then show ?thesis
  proof cases
    case 1
    then show ?thesis by (simp add: round_double_def)
  next
    case 2
    with assms show ?thesis by (intro pos) auto
  next
    case 3
    with assms have "round_double (of_int (- n)) = Num (of_int (- n))"
      by (intro pos) auto
    then have "round_double (- of_int n) = Num (- of_int n)" by simp
    then have "js_neg (round_double (of_int n)) = Num (- of_int n)"
      by (simp add: round_double_neg)
    then show ?thesis
      by (cases "round_double (of_int n)") auto
  qed
qed

lemma round_double_numeral:
  "(numeral k :: int) \<le> 9007199254740992 \<Longrightarrow> round_double (numeral k) = Num (numeral k)"
  "(numeral k :: int) \<le> 9007199254740992 \<Longrightarrow> round_double (- numeral k) = Num (- numeral k)"
  "round_double 0 = Num 0"
  "round_double 1 = Num 1"
  using round_double_integer[of "numeral k"] round_double_integer[of "- numeral k"]
    round_double_integer[of 0] round_double_integer[of 1]
  by simp_all

lemma js_add_integer:
  "\<bar>x + y\<bar> \<le> 2 ^ 53 \<Longrightarrow> js_add (Num (of_int x)) (Num (of_int y)) = Num (of_int (x + y))"
  using round_double_integer[of "x + y"] by simp

lemma js_sub_integer:
  "\<bar>x - y\<bar> \<le> 2 ^ 53 \<Longrightarrow> js_sub (Num (of_int x)) (Num (of_int y)) = Num (of_int (x - y))"
  using round_double_integer[of "x - y"] by (simp add: js_sub_def)

text \<open>Above \<open>2^53\<close> the odd integers are not binary64 values: \<open>2^53 + 1\<close> rounds to \<open>2^53\<close>.\<close>

lemma round_double_2_53_plus_1: "round_double 9007199254740993 = Num 9007199254740992"
proof -
  have bl: "bitlen 9007199254740993 = 54"
    using bitlen_twopow_add_eq[of 1 53] by simp
  have "binade (of_int 9007199254740993) = 53"
    using binade_of_int[of 9007199254740993] bl by simp
  then have b: "binade 9007199254740993 = 53" by simp
  have fl: "\<lfloor>(9007199254740993::rat) / 2\<rfloor> = 4503599627370496"
    by (rule floor_unique) simp_all
  have r: "round_half_even (9007199254740993 / 2) = 4503599627370496"
    by (simp add: round_half_even_def Let_def fl)
  show ?thesis
    by (simp add: round_double_def Let_def b pow2_def r)
qed

subsection \<open>Running the model\<close>

lemma test_env_simps:
  "ed25519_sign test_env message private_key = private_key @ '':'' @ message"
  "ed25519_verify test_env message signature pk = (signature = pk @ '':'' @ message)"
  by (simp_all add: test_env_def)

lemma hashTransaction_signature:
  "hashTransaction e (tx\<lparr> tx_signature := s \<rparr>) = hashTransaction e tx"
  by (simp add: hashTransaction_def)

lemma signed_simps:
  "tx_version (signed tx k) = tx_version tx"
  "tx_type (signed tx k) = tx_type tx"
  "tx_from (signed tx k) = tx_from tx"
  "tx_to (signed tx k) = tx_to tx"
  "tx_amount (signed tx k) = tx_amount tx"
  "tx_nonce (signed tx k) = tx_nonce tx"
  "tx_timestamp (signed tx k) = tx_timestamp tx"
  "tx_data (signed tx k) = tx_data tx"
  "tx_signature (signed tx k) = k @ '':'' @ hashTransaction test_env tx"
  "hashTransaction e (signed tx k) = hashTransaction e tx"
  by (simp_all add: signed_def signTransaction_def signMessage_def test_env_simps
        hashTransaction_signature)

lemmas number_run_defs = round_double_numeral js_sub_def js_gt_def js_strict_eq_def falsy_num_def

lemmas table_run_defs = js_get_def Object_prototype_names_def push_index_def

lemmas ledger_run_defs = applyTransaction_def Let_def test_env_simps signed_simps
  verifyTransactionSignature_def verifySignature_def account_with_def ledger_two_def unsigned_tx_def
  new_LedgerState_def validateEconomicConstraints_def MAX_SAFE_INTEGER_def transaction_fee_def
  transfer_block_def store_block_def modify_account_def getBalance_def
  number_run_defs table_run_defs

lemmas identity_run_defs = registerBot_def identities_P_A_def truthy_def attestation_reduction_def
  registration_def registration_lock_days_def Let_def table_run_defs

subsection \<open>Ledger\<close>

lemma accounts_modify_account:
  "accounts (modify_account pk f st) =
     (case accounts st pk of None \<Rightarrow> accounts st | Some a \<Rightarrow> (accounts st)(pk \<mapsto> f a))"
  by (auto simp: modify_account_def split: option.splits)

lemma accounts_store_block:
  "store_block clock k st tx h = (x, st') \<Longrightarrow> accounts st' = accounts st"
  by (auto simp: store_block_def Let_def split: option.splits if_splits)

text \<open>What an accepted call has gone through.\<close>

lemma applyTransaction_accepted:
  assumes "applyTransaction e clock st tx = (Inr (), st')"
  shows "\<exists>sender st1 k.
           accounts st (tx_from tx) = Some sender
         \<and> js_strict_eq (tx_nonce tx) (js_add (nonce sender) (Num 1))
         \<and> validateEconomicConstraints tx (balance sender) = None
         \<and> transfer_block clock st tx sender = (None, st1, k)
         \<and> store_block clock k st1 tx (hashTransaction e tx) = (None, st')"
  using assms
  by (auto simp: applyTransaction_def Let_def js_get_def
        split: if_splits option.splits prod.splits property.splits)

text \<open>
  Every failure that \<^verbatim>\<open>applyTransaction\<close> returns as a result leaves the state as it was;
  the transfer block makes its checks before its first write.
\<close>

lemma returned_failure_unchanged:
  "applyTransaction e clock st tx = (Inl (Returned err), st') \<Longrightarrow> st' = st"
  by (auto simp: applyTransaction_def transfer_block_def Let_def js_get_def
        split: if_splits option.splits prod.splits property.splits)

lemma unknown_recipient_rejected:
  assumes "tx_type tx = transfer" and "tx_to tx = Some r" and "r \<noteq> []"
    and "js_get (accounts st) r = Absent"
  shows "\<exists>err. applyTransaction e clock st tx = (Inl (Returned err), st)"
  using assms
  by (auto simp: applyTransaction_def Let_def transfer_block_def
        split: if_splits option.splits prod.splits property.splits)

lemma unknown_recipient_error:
  assumes "tx_type tx = transfer" and "tx_to tx = Some r" and "r \<noteq> []"
    and "js_get (accounts st) r = Absent"
    and "transactions st (hashTransaction e tx) = None"
    and "accounts st (tx_from tx) = Some sender"
    and "js_strict_eq (tx_nonce tx) (js_add (nonce sender) (Num 1))"
    and "verifyTransactionSignature e tx"
    and "validateEconomicConstraints tx (balance sender) = None"
  shows "applyTransaction e clock st tx = (Inl (Returned RecipientNotFound), st)"
  using assms
  by (simp add: applyTransaction_def Let_def transfer_block_def js_get_def)

lemma non_transfer_accepted_accounts:
  assumes "applyTransaction e clock st tx = (Inr (), st')"
    and "tx_type tx \<noteq> transfer \<or> \<not> truthy (tx_to tx)"
  shows "accounts st' = accounts st"
proof -
  from applyTransaction_accepted[OF assms(1)] obtain sender st1 k
    where t: "transfer_block clock st tx sender = (None, st1, k)"
      and s: "store_block clock k st1 tx (hashTransaction e tx) = (None, st')"
    by blast
  from t assms(2) have "st1 = st"
    by (auto simp: transfer_block_def truthy_def split: option.splits if_splits)
  with accounts_store_block[OF s] show ?thesis by simp
qed

text \<open>
  An accepted transfer between two accounts whose balances and amount are integers that
  stay within \<open>2^53\<close>: the amount is positive and covered, and the balances afterwards are
  the exact ones.
\<close>

lemma transfer_accepted_balances:
  assumes ok: "applyTransaction e clock st tx = (Inr (), st')"
    and ty: "tx_type tx = transfer" and to: "tx_to tx = Some r" and r: "r \<noteq> []"
    and amt: "tx_amount tx = Num (of_int a)"
    and bs: "map_option balance (accounts st (tx_from tx)) = Some (Num (of_int bs))"
    and br: "map_option balance (accounts st r) = Some (Num (of_int br))"
    and safe: "\<bar>bs\<bar> < 2 ^ 53" "\<bar>br\<bar> < 2 ^ 53" "br + a < 2 ^ 53"
  shows "0 < a \<and> a + 1 \<le> bs
       \<and> getBalance st' k =
           (if k = tx_from tx then Num (of_int (if r = tx_from tx then bs - 1 else bs - a - 1))
            else if k = r then Num (of_int (br + a))
            else getBalance st k)"
proof -
  from applyTransaction_accepted[OF ok] obtain sender st1 n
    where sender: "accounts st (tx_from tx) = Some sender"
      and econ: "validateEconomicConstraints tx (balance sender) = None"
      and t: "transfer_block clock st tx sender = (None, st1, n)"
      and s: "store_block clock n st1 tx (hashTransaction e tx) = (None, st')"
    by blast
  from bs sender have sb: "balance sender = Num (of_int bs)" by simp
  from br obtain recipient where recipient: "accounts st r = Some recipient"
    and rb: "balance recipient = Num (of_int br)" by auto
  from econ amt have a_le: "of_int a \<le> MAX_SAFE_INTEGER" and a_ge: "(0::rat) \<le> of_int a"
    and a_ne: "a \<noteq> 0"
    by (auto simp: validateEconomicConstraints_def js_gt_def js_strict_eq_def ty
          split: if_splits)
  then have a1: "0 < a" and a2: "a + 1 \<le> 2 ^ 53"
    by (simp_all add: MAX_SAFE_INTEGER_def)
  have one: "Num 1 = Num (of_int 1)" by simp
  have debit: "js_add (Num (of_int a)) (Num 1) = Num (of_int (a + 1))"
    unfolding one using a1 a2 by (intro js_add_integer) simp
  from econ have "\<not> js_lt (balance sender) (js_add (tx_amount tx) (Num transaction_fee))"
    by (auto simp: validateEconomicConstraints_def split: if_splits)
  then have "\<not> js_lt (Num (of_int bs)) (Num (of_int (a + 1)))"
    unfolding sb amt transaction_fee_def debit .
  then have a3: "a + 1 \<le> bs" by simp
  have sub: "js_sub (Num (of_int bs)) (Num (of_int (a + 1))) = Num (of_int (bs - (a + 1)))"
    using a1 a3 safe(1) by (intro js_sub_integer) simp
  have add_r: "js_add (Num (of_int br)) (Num (of_int a)) = Num (of_int (br + a))"
    using a1 safe(2,3) by (intro js_add_integer) simp
  have add_s: "js_add (Num (of_int (bs - (a + 1)))) (Num (of_int a)) = Num (of_int (bs - 1))"
  proof -
    have "js_add (Num (of_int (bs - (a + 1)))) (Num (of_int a))
            = Num (of_int (bs - (a + 1) + a))"
      using a1 a3 safe(1) by (intro js_add_integer) simp
    then show ?thesis by simp
  qed
  have nz: "\<not> falsy_num (Num (of_int z)) \<or> Num (of_int z) = Num 0" for z :: int
    by (auto simp: falsy_num_def)
  have acc: "accounts st' = accounts st1" by (rule accounts_store_block[OF s])
  show ?thesis
  proof (cases "r = tx_from tx")
    case True
    with t sender recipient sb amt ty to r debit sub add_s
    have "accounts st1 = (accounts st)(r \<mapsto>
            sender\<lparr> balance := Num (of_int (bs - 1)), nonce := tx_nonce tx,
                    last_active := clock 0, updated_at := clock 2 \<rparr>)"
      by (auto simp: transfer_block_def Let_def js_get_def accounts_modify_account
            split: if_splits)
    with acc True a1 a3 show ?thesis
      by (auto simp: getBalance_def js_get_def falsy_num_def)
  next
    case False
    with t sender recipient sb rb amt ty to r debit sub add_r
    have "accounts st1 = (accounts st)
            (tx_from tx \<mapsto> sender\<lparr> balance := Num (of_int (bs - (a + 1))), nonce := tx_nonce tx,
                                    last_active := clock 0, updated_at := clock 1 \<rparr>,
             r \<mapsto> recipient\<lparr> balance := Num (of_int (br + a)), updated_at := clock 2 \<rparr>)"
      by (auto simp: transfer_block_def Let_def js_get_def accounts_modify_account
            split: if_splits)
    with acc False a1 a3 show ?thesis
      by (auto simp: getBalance_def js_get_def falsy_num_def)
  qed
qed

lemma transfer_accepted_nonce:
  assumes ok: "applyTransaction e clock st tx = (Inr (), st')"
    and ty: "tx_type tx = transfer" and to: "tx_to tx = Some r" and r: "r \<noteq> []"
  shows "\<exists>a a'. accounts st (tx_from tx) = Some a \<and> accounts st' (tx_from tx) = Some a'
           \<and> js_strict_eq (nonce a') (js_add (nonce a) (Num 1))"
proof -
  from applyTransaction_accepted[OF ok] obtain sender st1 n
    where sender: "accounts st (tx_from tx) = Some sender"
      and nn: "js_strict_eq (tx_nonce tx) (js_add (nonce sender) (Num 1))"
      and t: "transfer_block clock st tx sender = (None, st1, n)"
      and s: "store_block clock n st1 tx (hashTransaction e tx) = (None, st')"
    by blast
  from t sender ty to r have "\<exists>a'. accounts st1 (tx_from tx) = Some a' \<and> nonce a' = tx_nonce tx"
    by (auto simp: transfer_block_def Let_def accounts_modify_account
          split: if_splits option.splits property.splits)
  with accounts_store_block[OF s] sender nn show ?thesis by auto
qed

lemma getBalance_integer:
  "map_option balance (accounts st k) = Some (Num (of_int b)) \<Longrightarrow> getBalance st k = Num (of_int b)"
  by (auto simp: getBalance_def js_get_def falsy_num_def)

text \<open>
  Claim C1. An accepted \<^verbatim>\<open>skill_purchase\<close> is to move value like a transfer. In the code the
  block that debits, credits and advances the nonce is guarded by the type
  \<^verbatim>\<open>transfer\<close>. On the purchase of scenario 5 (buyer with 1000, creator with 0, price 50,
  nonce 1, signed by the buyer) \<^verbatim>\<open>applyTransaction\<close> returns success, the buyer keeps 1000
  instead of 949, the creator keeps 0 instead of 50 and the buyer's nonce stays 0.
\<close>

theorem skill_purchase_moves_no_value:
  "fst (applyTransaction test_env test_clock (ledger_two ''b0'' 1000 ''c0'' 0)
          (signed (unsigned_tx skill_purchase ''b0'' (Some ''c0'') 50 1) ''b0'')) = Inr ()
   \<and> getBalance (snd (applyTransaction test_env test_clock (ledger_two ''b0'' 1000 ''c0'' 0)
          (signed (unsigned_tx skill_purchase ''b0'' (Some ''c0'') 50 1) ''b0''))) ''b0''
       = Num 1000
   \<and> getBalance (snd (applyTransaction test_env test_clock (ledger_two ''b0'' 1000 ''c0'' 0)
          (signed (unsigned_tx skill_purchase ''b0'' (Some ''c0'') 50 1) ''b0''))) ''c0''
       = Num 0
   \<and> map_option nonce (accounts (snd (applyTransaction test_env test_clock
          (ledger_two ''b0'' 1000 ''c0'' 0)
          (signed (unsigned_tx skill_purchase ''b0'' (Some ''c0'') 50 1) ''b0''))) ''b0'')
       = Some (Num 0)"
  by (simp add: ledger_run_defs)

text \<open>
  Claim C4. Every accepted transaction of a sender is to advance the sender's nonce by one.
  The nonce is written only inside the transfer block: a signed \<^verbatim>\<open>mint\<close> transaction with
  nonce 1 from an account whose nonce is 0 is accepted and stored, and the account's nonce
  is still 0 afterwards.
\<close>

theorem accepted_mint_keeps_nonce:
  "fst (applyTransaction test_env test_clock (ledger_two ''5e'' 1000 ''4e'' 100)
          (signed (unsigned_tx mint ''5e'' None 10 1) ''5e'')) = Inr ()
   \<and> map_option nonce (accounts (ledger_two ''5e'' 1000 ''4e'' 100) ''5e'') = Some (Num 0)
   \<and> map_option nonce (accounts (snd (applyTransaction test_env test_clock
          (ledger_two ''5e'' 1000 ''4e'' 100)
          (signed (unsigned_tx mint ''5e'' None 10 1) ''5e''))) ''5e'') = Some (Num 0)"
  by (simp add: ledger_run_defs)

text \<open>
  Claim C5, as stated: for every accepted transfer the change of the sender's balance plus
  the change of the recipient's balance is minus the fee. When sender and recipient are the
  same account the two references denote one object, its balance falls by the fee, and
  the two changes add up to twice that.
\<close>

theorem self_transfer_counterexample:
  "fst (applyTransaction test_env test_clock (ledger_two ''5e'' 1000 ''4e'' 100)
          (signed (unsigned_tx transfer ''5e'' (Some ''5e'') 100 1) ''5e'')) = Inr ()
   \<and> balance_change (ledger_two ''5e'' 1000 ''4e'' 100)
        (snd (applyTransaction test_env test_clock (ledger_two ''5e'' 1000 ''4e'' 100)
          (signed (unsigned_tx transfer ''5e'' (Some ''5e'') 100 1) ''5e''))) ''5e''
     + balance_change (ledger_two ''5e'' 1000 ''4e'' 100)
        (snd (applyTransaction test_env test_clock (ledger_two ''5e'' 1000 ''4e'' 100)
          (signed (unsigned_tx transfer ''5e'' (Some ''5e'') 100 1) ''5e''))) ''5e''
     \<noteq> - transaction_fee"
  by (simp add: ledger_run_defs balance_change_def)

text \<open>
  The code adds and subtracts binary64 numbers and bounds the amount only. A transfer of 1
  to an account that holds \<open>2^53\<close> is accepted; the sender pays 2 and the recipient's
  balance, \<open>2^53 + 1\<close> not being a binary64 value, stays where it was.
\<close>

lemma transfer_rounding_example:
  "fst (applyTransaction test_env test_clock (ledger_two ''5e'' 1000 ''4e'' 9007199254740992)
          (signed (unsigned_tx transfer ''5e'' (Some ''4e'') 1 1) ''5e'')) = Inr ()
   \<and> getBalance (snd (applyTransaction test_env test_clock
          (ledger_two ''5e'' 1000 ''4e'' 9007199254740992)
          (signed (unsigned_tx transfer ''5e'' (Some ''4e'') 1 1) ''5e''))) ''5e'' = Num 998
   \<and> getBalance (snd (applyTransaction test_env test_clock
          (ledger_two ''5e'' 1000 ''4e'' 9007199254740992)
          (signed (unsigned_tx transfer ''5e'' (Some ''4e'') 1 1) ''5e''))) ''4e''
       = Num 9007199254740992"
  by (simp add: ledger_run_defs round_double_2_53_plus_1)

text \<open>
  Claim C5, amended. For every accepted transfer that names a recipient, where the amount
  and the balances of sender and recipient before the call are integers of magnitude
  below \<open>2^53\<close> and the recipient's balance plus the amount is below \<open>2^53\<close> as well: the
  change of the sender's balance plus the change of the recipient's balance is minus the
  fee when the two accounts differ and minus twice the fee when they are the same account,
  and over any duplicate-free list of account keys that contains both, the sum of the
  balances falls by exactly the fee.
\<close>

theorem transfer_conservation:
  assumes ok: "applyTransaction e clock st tx = (Inr (), st')"
    and ty: "tx_type tx = transfer" and to: "tx_to tx = Some r" and r: "r \<noteq> []"
    and amt: "tx_amount tx = Num (of_int a)"
    and bs: "map_option balance (accounts st (tx_from tx)) = Some (Num (of_int bs))"
    and br: "map_option balance (accounts st r) = Some (Num (of_int br))"
    and safe: "\<bar>bs\<bar> < 2 ^ 53" "\<bar>br\<bar> < 2 ^ 53" "br + a < 2 ^ 53"
    and ks: "distinct pks" "tx_from tx \<in> set pks" "r \<in> set pks"
  shows "balance_change st st' (tx_from tx) + balance_change st st' r
         = (if r = tx_from tx then - 2 * transaction_fee else - transaction_fee)
       \<and> total_supply st' pks = total_supply st pks - transaction_fee"
proof -
  let ?v = "\<lambda>s k. num_value (getBalance s k)"
  let ?d = "\<lambda>k. (if k = r then of_int a else 0)
                - (if k = tx_from tx then of_int a + 1 else (0::rat))"
  note after = transfer_accepted_balances[OF ok ty to r amt bs br safe]
  have before_s: "getBalance st (tx_from tx) = Num (of_int bs)"
    by (rule getBalance_integer[OF bs])
  have before_r: "getBalance st r = Num (of_int br)"
    by (rule getBalance_integer[OF br])
  have same: "bs = br" if "r = tx_from tx"
    using that bs br by auto
  have bal: "?v st' k = ?v st k + ?d k" for k
    using after[of k] before_s before_r same by auto
  have "total_supply st' pks = sum (?v st') (set pks)"
    unfolding total_supply_def using ks(1) by (simp add: sum_list_distinct_conv_sum_set)
  also have "\<dots> = sum (?v st) (set pks) + sum ?d (set pks)"
    by (simp add: bal sum.distrib)
  also have "sum ?d (set pks) = - 1"
  proof -
    have "sum ?d (set pks) = sum (\<lambda>k. if k = r then of_int a else 0) (set pks)
        - sum (\<lambda>k. if k = tx_from tx then of_int a + 1 else (0::rat)) (set pks)"
      by (simp add: sum_subtractf)
    also have "\<dots> = of_int a - (of_int a + 1)"
      using ks by (simp add: sum.delta)
    finally show ?thesis by simp
  qed
  also have "sum (?v st) (set pks) = total_supply st pks"
    unfolding total_supply_def using ks(1) by (simp add: sum_list_distinct_conv_sum_set)
  finally have "total_supply st' pks = total_supply st pks - transaction_fee"
    by (simp add: transaction_fee_def)
  moreover have "balance_change st st' (tx_from tx) + balance_change st st' r
         = (if r = tx_from tx then - 2 * transaction_fee else - transaction_fee)"
    unfolding balance_change_def by (simp add: bal transaction_fee_def)
  ultimately show ?thesis by simp
qed

theorem transfer_conservation_witness:
  "fst (applyTransaction test_env test_clock (ledger_two ''5e'' 1000 ''4e'' 100)
          (signed (unsigned_tx transfer ''5e'' (Some ''4e'') 100 1) ''5e'')) = Inr ()
   \<and> balance_change (ledger_two ''5e'' 1000 ''4e'' 100)
        (snd (applyTransaction test_env test_clock (ledger_two ''5e'' 1000 ''4e'' 100)
          (signed (unsigned_tx transfer ''5e'' (Some ''4e'') 100 1) ''5e''))) ''5e''
     + balance_change (ledger_two ''5e'' 1000 ''4e'' 100)
        (snd (applyTransaction test_env test_clock (ledger_two ''5e'' 1000 ''4e'' 100)
          (signed (unsigned_tx transfer ''5e'' (Some ''4e'') 100 1) ''5e''))) ''4e''
     = - transaction_fee
   \<and> total_supply (snd (applyTransaction test_env test_clock (ledger_two ''5e'' 1000 ''4e'' 100)
          (signed (unsigned_tx transfer ''5e'' (Some ''4e'') 100 1) ''5e''))) [''5e'', ''4e'']
     = total_supply (ledger_two ''5e'' 1000 ''4e'' 100) [''5e'', ''4e''] - transaction_fee"
proof -
  let ?tx = "signed (unsigned_tx transfer ''5e'' (Some ''4e'') 100 1) ''5e''"
  let ?st = "ledger_two ''5e'' 1000 ''4e'' 100"
  have ok: "fst (applyTransaction test_env test_clock ?st ?tx) = Inr ()"
    by (simp add: ledger_run_defs)
  then have run: "applyTransaction test_env test_clock ?st ?tx
      = (Inr (), snd (applyTransaction test_env test_clock ?st ?tx))"
    by (metis prod.collapse)
  have ty: "tx_type ?tx = transfer" and to: "tx_to ?tx = Some ''4e''"
    and fr: "tx_from ?tx = ''5e''" and amt: "tx_amount ?tx = Num (of_int 100)"
    by (simp_all add: signed_simps unsigned_tx_def)
  have r: "''4e'' \<noteq> ([]::string)" by simp
  have bs: "map_option balance (accounts ?st (tx_from ?tx)) = Some (Num (of_int 1000))"
    and br: "map_option balance (accounts ?st ''4e'') = Some (Num (of_int 100))"
    by (simp_all add: fr ledger_two_def account_with_def)
  have safe: "\<bar>1000::int\<bar> < 2 ^ 53" "\<bar>100::int\<bar> < 2 ^ 53" "(100::int) + 100 < 2 ^ 53"
    by simp_all
  have ks: "distinct [''5e'', ''4e'']" "tx_from ?tx \<in> set [''5e'', ''4e'']"
    "''4e'' \<in> set [''5e'', ''4e'']"
    by (simp_all add: fr)
  from transfer_conservation[OF run ty to r amt bs br safe ks] ok fr show ?thesis by simp
qed

text \<open>
  Claim C6. A transfer whose recipient account is absent, the transfer without a recipient
  field included, is to fail with the unknown-recipient error and leave the state as it
  was. A signed transfer of 10 with nonce 1 and no \<^verbatim>\<open>to\<close> field, from an account holding 1000,
  skips the guarded block: the call returns success, the transaction is stored, and no
  balance moves. (With a recipient name that the table does not answer for at all the
  call does fail and the state stays: \<open>unknown_recipient_rejected\<close>,
  \<open>unknown_recipient_error\<close>.)
\<close>

theorem transfer_without_recipient_accepted:
  "fst (applyTransaction test_env test_clock (ledger_two ''5e'' 1000 ''4e'' 100)
          (signed (unsigned_tx transfer ''5e'' None 10 1) ''5e'')) = Inr ()
   \<and> snd (applyTransaction test_env test_clock (ledger_two ''5e'' 1000 ''4e'' 100)
          (signed (unsigned_tx transfer ''5e'' None 10 1) ''5e''))
     \<noteq> ledger_two ''5e'' 1000 ''4e'' 100
   \<and> getBalance (snd (applyTransaction test_env test_clock (ledger_two ''5e'' 1000 ''4e'' 100)
          (signed (unsigned_tx transfer ''5e'' None 10 1) ''5e''))) ''5e'' = Num 1000"
proof -
  let ?tx = "signed (unsigned_tx transfer ''5e'' None 10 1) ''5e''"
  let ?st = "ledger_two ''5e'' 1000 ''4e'' 100"
  let ?r = "applyTransaction test_env test_clock ?st ?tx"
  have 1: "fst ?r = Inr ()" by (simp add: ledger_run_defs)
  have 2: "getBalance (snd ?r) ''5e'' = Num 1000" by (simp add: ledger_run_defs)
  have "transactions (snd ?r) (hashTransaction test_env ?tx) \<noteq> None"
    by (simp add: ledger_run_defs)
  moreover have "transactions ?st (hashTransaction test_env ?tx) = None"
    by (simp add: ledger_two_def new_LedgerState_def)
  ultimately have 3: "snd ?r \<noteq> ?st" by metis
  from 1 2 3 show ?thesis by simp
qed

text \<open>
  Claim C7. A call of \<^verbatim>\<open>applyTransaction\<close> that fails is to leave the ledger state as it
  was. The failures that the call returns as a result do (\<open>returned_failure_unchanged\<close>).
  But a signed transfer of 100 with nonce 1 to the recipient name \<^verbatim>\<open>constructor\<close>, for
  which there is no account, fails in another way: \<^verbatim>\<open>accounts['constructor']\<close> is the
  inherited function, the recipient check passes, the sender is debited (1000 to 899), its
  nonce advanced and the transaction stored, and then \<^verbatim>\<open>push\<close> on the inherited value of
  the index throws.
\<close>

theorem failure_after_writes:
  "fst (applyTransaction test_env test_clock (ledger_two ''5e'' 1000 ''4e'' 100)
          (signed (unsigned_tx transfer ''5e'' (Some ''constructor'') 100 1) ''5e''))
     = Inl (Thrown TypeError)
   \<and> getAccount (ledger_two ''5e'' 1000 ''4e'' 100) ''constructor'' = Inherited
   \<and> getBalance (ledger_two ''5e'' 1000 ''4e'' 100) ''5e'' = Num 1000
   \<and> getBalance (snd (applyTransaction test_env test_clock (ledger_two ''5e'' 1000 ''4e'' 100)
          (signed (unsigned_tx transfer ''5e'' (Some ''constructor'') 100 1) ''5e''))) ''5e''
       = Num 899
   \<and> map_option nonce (accounts (snd (applyTransaction test_env test_clock
          (ledger_two ''5e'' 1000 ''4e'' 100)
          (signed (unsigned_tx transfer ''5e'' (Some ''constructor'') 100 1) ''5e''))) ''5e'')
       = Some (Num 1)
   \<and> transactions (ledger_two ''5e'' 1000 ''4e'' 100)
        (hashTransaction test_env
          (signed (unsigned_tx transfer ''5e'' (Some ''constructor'') 100 1) ''5e'')) = None
   \<and> transactions (snd (applyTransaction test_env test_clock (ledger_two ''5e'' 1000 ''4e'' 100)
          (signed (unsigned_tx transfer ''5e'' (Some ''constructor'') 100 1) ''5e'')))
        (hashTransaction test_env
          (signed (unsigned_tx transfer ''5e'' (Some ''constructor'') 100 1) ''5e'')) \<noteq> None"
  by (simp add: ledger_run_defs getAccount_def)

subsection \<open>Identity registry\<close>

text \<open>
  Claim C8. The reduced stake minimum of 25 is to be granted only when the attester's
  reputation is at least 100. \<^verbatim>\<open>registerBot\<close> chooses the minimum by the mere presence of the
  attestation argument and never consults \<^verbatim>\<open>canAttest\<close>: with an attester of reputation 0,
  for whom \<^verbatim>\<open>canAttest\<close> is false, a registration with stake 25 succeeds.
\<close>

theorem low_reputation_attester_discount:
  "\<not> canAttest identities_P_A ''a0''
   \<and> fst (registerBot 1700000000000 identities_P_A ''b0'' 25 (Some ''a0'')) = Inr ()"
  by (simp add: identity_run_defs canAttest_def minimum_reputation_for_attestation_def)

text \<open>
  Claim C10. After a successful \<^verbatim>\<open>registerBot\<close> with a stake below 50 (which can only succeed
  through the attestation discount, with a stake of at least 25), \<^verbatim>\<open>isRegistered\<close> of that
  key is false, at whatever time it is asked.
\<close>

theorem discounted_stake_not_registered:
  assumes "registerBot now st pk s attestation = (Inr (), st')" and "s < registration"
  shows "\<not> isRegistered st' now' pk"
  using assms
  by (auto simp: registerBot_def isRegistered_def Let_def js_get_def truthy_def
        attestation_reduction_def registration_def
      split: option.splits if_splits property.splits)

theorem discounted_stake_not_registered_witness:
  "fst (registerBot 1700000000000 identities_P_A ''b0'' 25 (Some ''a0'')) = Inr ()
   \<and> (25::int) < registration
   \<and> \<not> isRegistered (snd (registerBot 1700000000000 identities_P_A ''b0'' 25 (Some ''a0'')))
         1700000000001 ''b0''"
proof -
  have ok: "fst (registerBot 1700000000000 identities_P_A ''b0'' 25 (Some ''a0'')) = Inr ()"
    by (simp add: identity_run_defs)
  then have run: "registerBot 1700000000000 identities_P_A ''b0'' 25 (Some ''a0'')
      = (Inr (), snd (registerBot 1700000000000 identities_P_A ''b0'' 25 (Some ''a0'')))"
    by (metis prod.collapse)
  have lt: "(25::int) < registration" by (simp add: registration_def)
  from discounted_stake_not_registered[OF run lt, of 1700000000001] ok lt
  show ?thesis by blast
qed

subsection \<open>Canonical hashing\<close>

lemma insert_index_map:
  "map (\<lambda>(k, v). (k, g v)) (insert_index i k v obj)
     = insert_index i k (g v) (map (\<lambda>(k, v). (k, g v)) obj)"
  by (induction obj) (auto split: option.splits)

lemma obj_set_map:
  "map (\<lambda>(k, v). (k, g v)) (obj_set obj k v) = obj_set (map (\<lambda>(k, v). (k, g v)) obj) k (g v)"
proof -
  have keys: "fst ` set (map (\<lambda>(k, v). (k, g v)) obj) = fst ` set obj"
    by force
  show ?thesis
  proof (cases "k \<in> fst ` set obj")
    case True
    then have "k \<in> fst ` set (map (\<lambda>(k, v). (k, g v)) obj)" using keys by simp
    with True show ?thesis
      unfolding obj_set_def by (auto simp: case_prod_beta)
  next
    case False
    then have "k \<notin> fst ` set (map (\<lambda>(k, v). (k, g v)) obj)" using keys by simp
    with False show ?thesis
      unfolding obj_set_def by (auto simp: insert_index_map split: option.splits)
  qed
qed

lemma build_map:
  "map (\<lambda>(k, v). (k, g v)) (foldl (\<lambda>sorted k. obj_set sorted k (f k)) acc ks)
     = foldl (\<lambda>sorted k. obj_set sorted k (g (f k))) (map (\<lambda>(k, v). (k, g v)) acc) ks"
  by (induction ks arbitrary: acc) (simp_all add: obj_set_map)

lemma build_cong:
  assumes "\<And>k. k \<in> set ks \<Longrightarrow> f k = f' k"
  shows "foldl (\<lambda>sorted k. obj_set sorted k (f k)) acc ks
       = foldl (\<lambda>sorted k. obj_set sorted k (f' k)) acc ks"
  using assms by (intro foldl_cong) auto

lemma sort_keys_eq:
  assumes "distinct xs" "distinct ys" "set xs = set ys"
  shows "sort xs = sort (ys :: string list)"
proof -
  from assms have "mset xs = mset ys"
    by (simp add: set_eq_iff_mset_eq_distinct)
  then have "mset (sort ys) = mset xs" by simp
  then show ?thesis by (rule properties_for_sort) simp
qed

lemma obj_get_member:
  "distinct (map fst obj) \<Longrightarrow> (k, v) \<in> set obj \<Longrightarrow> obj_get obj k = v"
  by (simp add: obj_get_def)

lemma serialize_members_eq:
  fixes h :: "'v \<Rightarrow> 'r" and f f' :: "string \<Rightarrow> 'v"
  assumes "\<And>k. k \<in> set ks \<Longrightarrow> h (f k) = h (f' k)"
  shows "map (\<lambda>(k, v). G k (h v)) (foldl (\<lambda>sorted k. obj_set sorted k (f k)) [] ks)
       = map (\<lambda>(k, v). G k (h v)) (foldl (\<lambda>sorted k. obj_set sorted k (f' k)) [] ks)"
proof -
  have split: "map (\<lambda>(k, v). G k (h v)) obj = map (\<lambda>(k, s). G k s) (map (\<lambda>(k, v). (k, h v)) obj)"
    for obj :: "(string \<times> 'v) list"
    by (simp add: case_prod_beta)
  have "map (\<lambda>(k, v). (k, h v)) (foldl (\<lambda>sorted k. obj_set sorted k (f k)) [] ks)
      = foldl (\<lambda>sorted k. obj_set sorted k (h (f k))) [] ks"
    using build_map[of h f "[]" ks] by simp
  also have "\<dots> = foldl (\<lambda>sorted k. obj_set sorted k (h (f' k))) [] ks"
    using assms by (rule build_cong)
  also have "\<dots> = map (\<lambda>(k, v). (k, h v)) (foldl (\<lambda>sorted k. obj_set sorted k (f' k)) [] ks)"
    using build_map[of h f' "[]" ks] by simp
  finally show ?thesis by (simp only: split)
qed

lemma canonical_reordered:
  "reordered a b \<Longrightarrow> SerializeJSONProperty e True a = SerializeJSONProperty e True b"
proof (induction a b rule: reordered.induct)
  case (1 xs ys)
  from "1.prems" have "list_all2 reordered xs ys" by simp
  then have "list_all2 (\<lambda>x y. SerializeJSONProperty e True x = SerializeJSONProperty e True y) xs ys"
    by (rule list.rel_mono_strong) (rule "1.IH")
  then have "map (SerializeJSONProperty e True) xs = map (SerializeJSONProperty e True) ys"
    by (induction rule: list_all2_induct) auto
  then have "map (case_option ''null'' (\<lambda>s. s)) (map (SerializeJSONProperty e True) xs)
           = map (case_option ''null'' (\<lambda>s. s)) (map (SerializeJSONProperty e True) ys)"
    by (rule arg_cong)
  then have "map (\<lambda>x. case SerializeJSONProperty e True x of None \<Rightarrow> ''null'' | Some s \<Rightarrow> s) xs
           = map (\<lambda>x. case SerializeJSONProperty e True x of None \<Rightarrow> ''null'' | Some s \<Rightarrow> s) ys"
    by (simp add: comp_def)
  then show ?case
    by (simp add: SerializeJSONProperty.simps[of e True "JArr xs"]
          SerializeJSONProperty.simps[of e True "JArr ys"] replacer_def)
next
  case (2 o1 o2)
  from "2.prems" have d1: "distinct (map fst o1)" and d2: "distinct (map fst o2)"
    and keys: "set (map fst o1) = set (map fst o2)"
    and vals: "list_all (\<lambda>(k, v). reordered v (obj_get o2 k)) o1"
    by simp_all
  let ?h = "SerializeJSONProperty e True"
  let ?ks = "sort (Object_keys o1)"
  have ks: "sort (Object_keys o2) = ?ks"
    unfolding Object_keys_def using sort_keys_eq[OF d1 d2 keys] by simp
  have eq: "?h (obj_get o1 k) = ?h (obj_get o2 k)" if "k \<in> set ?ks" for k
  proof -
    from that obtain v where kv: "(k, v) \<in> set o1"
      by (auto simp: Object_keys_def)
    then have "reordered v (obj_get o2 k)"
      using vals by (auto simp: list_all_iff)
    with "2.IH"[OF kv refl] have "?h v = ?h (obj_get o2 k)" by simp
    with obj_get_member[OF d1 kv] show ?thesis by simp
  qed
  let ?G = "\<lambda>k r. case r of None \<Rightarrow> [] | Some s \<Rightarrow> [QuoteJSONString e k @ '':'' @ s]"
  have "map (\<lambda>(k, v). ?G k (?h v)) (foldl (\<lambda>sorted k. obj_set sorted k (obj_get o1 k)) [] ?ks)
      = map (\<lambda>(k, v). ?G k (?h v)) (foldl (\<lambda>sorted k. obj_set sorted k (obj_get o2 k)) [] ?ks)"
    using eq by (rule serialize_members_eq)
  then show ?case
    by (simp add: SerializeJSONProperty.simps[of e True "JObj o1"]
          SerializeJSONProperty.simps[of e True "JObj o2"] replacer_def ks)
qed simp_all

lemma reordered_refl: "distinct_keys a \<Longrightarrow> reordered a a"
proof (induction a)
  case (JArr xs)
  then show ?case
    by (auto simp: list_all_iff list_all2_same)
next
  case (JObj obj)
  have "reordered v (obj_get obj k)" if kv: "(k, v) \<in> set obj" for k v
  proof -
    from JObj.prems have d: "distinct (map fst obj)" and dv: "distinct_keys v"
      using kv by (auto simp: list_all_iff)
    have "v \<in> Basic_BNFs.snds (k, v)" by simp
    with JObj.IH[OF kv this dv] obj_get_member[OF d kv] show ?thesis by simp
  qed
  with JObj.prems show ?case by (auto simp: list_all_iff)
qed simp_all

lemma reordered_permutation:
  assumes "distinct_keys (JObj o1)" and "mset o2 = mset o1"
  shows "reordered (JObj o1) (JObj o2)"
proof -
  from assms(2) have s: "set o2 = set o1" by (rule mset_eq_setD)
  from assms(2) have m: "mset (map fst o2) = mset (map fst o1)" by (metis mset_map)
  from assms(1) have d1: "distinct (map fst o1)" by simp
  with m have d2: "distinct (map fst o2)" by (metis mset_eq_imp_distinct_iff)
  have "reordered v (obj_get o2 k)" if kv: "(k, v) \<in> set o1" for k v
  proof -
    from kv s have "(k, v) \<in> set o2" by simp
    from obj_get_member[OF d2 this] have "obj_get o2 k = v" .
    moreover from assms(1) kv have "distinct_keys v" by (auto simp: list_all_iff)
    ultimately show ?thesis by (simp add: reordered_refl)
  qed
  with d1 d2 s show ?thesis by (auto simp: list_all_iff)
qed

text \<open>
  The canonical text of an object on the concrete platform instance: nested keys are sorted,
  the array-index key \<open>10\<close> comes first, and the \<^verbatim>\<open>undefined\<close> array element is \<^verbatim>\<open>null\<close>.
\<close>

lemma canonicalJson_object_ba:
  "canonicalJson test_env object_ba =
     Some (''{'' @ QuoteJSONString test_env ''10'' @ '':null,''
           @ QuoteJSONString test_env ''a'' @ '':{''
             @ QuoteJSONString test_env ''x'' @ '':['' @ QuoteJSONString test_env ''q'' @ '',null],''
             @ QuoteJSONString test_env ''y'' @ '':true},''
           @ QuoteJSONString test_env ''b'' @ '':1}'')"
  by code_simp

text \<open>
  Claim C9. For every object, with objects nested in it to any depth, and every reordering
  of the keys at any level, \<^verbatim>\<open>hashData\<close> returns the same digest: the canonical JSON text
  depends on the keys and their values only, not on the order in which an object lists
  them. This holds for every digest function and every rendering of strings and numbers.
  The relation \<open>reordered\<close> contains every permutation of the properties of an object
  (\<open>reordered_permutation\<close>) and is closed under reordering inside the values.
\<close>

theorem hashData_reordered:
  "reordered a b \<Longrightarrow> hashData e a = hashData e b"
proof -
  assume r: "reordered a b"
  then have c: "canonicalJson e a = canonicalJson e b"
    unfolding canonicalJson_def by (rule canonical_reordered)
  show ?thesis
  proof (cases a)
    case (JStr s)
    with r show ?thesis by simp
  next
    case (JArr xs)
    with r obtain ys where "b = JArr ys" by (cases b) auto
    with JArr c show ?thesis by (simp add: hashData_def)
  next
    case (JObj o1)
    with r obtain o2 where "b = JObj o2" by (cases b) auto
    with JObj c show ?thesis by (simp add: hashData_def)
  qed (use r in auto)
qed

theorem hashData_reordered_witness:
  "reordered object_ba object_ab \<and> hashData test_env object_ba = hashData test_env object_ab"
proof -
  have r: "reordered object_ba object_ab"
    by (auto simp: object_ba_def object_ab_def obj_get_def)
  from hashData_reordered[OF r, of test_env] r show ?thesis by simp
qed

subsection \<open>PBFT validator\<close>

lemma signed_message_simps:
  "msg_type (signed_message ty v s d vid k) = ty"
  "msg_view (signed_message ty v s d vid k) = v"
  "msg_sequence (signed_message ty v s d vid k) = s"
  "msg_digest (signed_message ty v s d vid k) = d"
  "msg_validator (signed_message ty v s d vid k) = vid"
  by (simp_all add: signed_message_def Let_def)

lemmas pbft_run_defs = submitTransaction_def validateTransaction_def broadcastPrePrepare_def
  handlePrePrepare_def broadcastPrepare_def handlePrepare_def broadcastCommit_def handleCommit_def
  commitTransaction_def verifyMessage_def quorum_def add_vote_def vote_count_def
  new_PBFTValidator_def electLeader_def four_validators_def getAccount_def truthy_def
  sign_consensus_message_def signMessage_def signed_message_def
  verifySignature_def test_env_simps signed_simps Let_def
  ledger_two_def account_with_def new_LedgerState_def unsigned_tx_def
  node_submitted_def node_start_def demo_tx_def peer_prepare_def peer_commit_def
  number_run_defs table_run_defs

text \<open>
  The only place where \<^verbatim>\<open>handlePrepare\<close> extends the message log is the broadcast of COMMIT;
  it happens only if the recorded set for the digest, the sender of the message included,
  has at least \<open>2f\<close> members.
\<close>

lemma message_log_commitTransaction [simp]:
  "message_log (snd (commitTransaction e clock v h tx)) = message_log v"
  by (simp add: commitTransaction_def split: prod.splits sum.splits failure.splits)

lemma message_log_handleCommit [simp]:
  "message_log (snd (handleCommit e clock v m)) = message_log v"
  by (simp add: handleCommit_def Let_def split: option.splits)

lemma handlePrepare_commit_threshold:
  assumes "message_log (snd (handlePrepare e clock v m)) \<noteq> message_log v"
  shows "card (insert (msg_validator m)
                 (case prepared (state v) (msg_digest m) of None \<Rightarrow> {} | Some s \<Rightarrow> s)) + 1
           \<ge> 2 * (length (peers (config v)) div 3) + 1"
  using assms
  by (auto simp: handlePrepare_def broadcastCommit_def Let_def quorum_def vote_count_def
        add_vote_def split: if_splits option.splits)

text \<open>
  Claim C2. COMMIT is to be sent only after PREPAREs of at least \<open>2f + 1\<close> distinct
  validators are recorded, the validator's own vote counting once. The handler compares
  the size of the recorded set plus one with \<open>2f + 1\<close>, and the set already holds the
  validator's own PREPARE. With four validators (\<open>f = 1\<close>, quorum 3): after the validator
  submits the transfer its log holds its PRE-PREPARE and PREPARE; one PREPARE of
  \<open>validator-2\<close> then makes it send COMMIT with two validators recorded, and one COMMIT of
  \<open>validator-2\<close> makes it apply the transfer to the ledger.
\<close>

theorem commit_after_two_of_four_prepares:
  "quorum (node_submitted ''a1'') = 3
   \<and> map msg_type (message_log (node_submitted ''a1'')) = [pre_prepare, prepare]
   \<and> map msg_type (message_log (snd
        (handlePrepare test_env test_clock (node_submitted ''a1'')
           (peer_prepare ''validator-2'' ''a2''))))
       = [pre_prepare, prepare, commit]
   \<and> prepared (state (snd
        (handlePrepare test_env test_clock (node_submitted ''a1'')
           (peer_prepare ''validator-2'' ''a2'')))) (hashTransaction test_env demo_tx)
       = Some {''validator-1'', ''validator-2''}
   \<and> vote_count (hashTransaction test_env demo_tx) (prepared (state (snd
        (handlePrepare test_env test_clock (node_submitted ''a1'')
           (peer_prepare ''validator-2'' ''a2''))))) = 2
   \<and> getBalance (ledger (snd
        (handleCommit test_env test_clock
           (snd (handlePrepare test_env test_clock (node_submitted ''a1'')
              (peer_prepare ''validator-2'' ''a2'')))
           (peer_commit ''validator-2'' ''a2'')))) ''4e'' = Num 200"
proof -
  let ?d = "hashTransaction test_env demo_tx"
  let ?v2 = "snd (handlePrepare test_env test_clock (node_submitted ''a1'')
               (peer_prepare ''validator-2'' ''a2''))"
  have 1: "quorum (node_submitted ''a1'') = 3"
    by (simp add: pbft_run_defs)
  have 2: "map msg_type (message_log (node_submitted ''a1'')) = [pre_prepare, prepare]"
    by (simp add: pbft_run_defs)
  have 3: "map msg_type (message_log ?v2) = [pre_prepare, prepare, commit]"
    by (simp add: pbft_run_defs)
  have 4: "prepared (state ?v2) ?d = Some {''validator-1'', ''validator-2''}"
    by (simp add: pbft_run_defs insert_commute)
  have 5: "vote_count ?d (prepared (state ?v2)) = 2"
    by (simp add: vote_count_def 4)
  have 6: "getBalance (ledger (snd (handleCommit test_env test_clock ?v2
              (peer_commit ''validator-2'' ''a2'')))) ''4e'' = Num 200"
    by (simp add: pbft_run_defs ledger_run_defs)
  from 1 2 3 4 5 6 show ?thesis by blast
qed

text \<open>
  Claim C3. COMMIT is never to be sent for a digest whose PRE-PREPARE from the leader has
  not been recorded. \<^verbatim>\<open>handlePrepare\<close> never reads the \<^verbatim>\<open>pre_prepared\<close> flag. A validator
  whose configured public key does not verify its own signatures drops its own
  PRE-PREPARE, so the submitted transfer stays pending with the flag false; PREPAREs of
  \<open>validator-2\<close> and \<open>validator-3\<close> then make it send COMMIT, the flag still false.
\<close>

theorem commit_without_pre_prepare:
  "fst (submitTransaction test_env test_clock 1700000000000 (node_start ''ff'') demo_tx) = Inr ()
   \<and> map msg_type (message_log (node_submitted ''ff'')) = [pre_prepare]
   \<and> map_option pre_prepared
        (pending (node_submitted ''ff'') (hashTransaction test_env demo_tx)) = Some False
   \<and> map msg_type (message_log (snd
        (handlePrepare test_env test_clock
           (snd (handlePrepare test_env test_clock (node_submitted ''ff'')
              (peer_prepare ''validator-2'' ''a2'')))
           (peer_prepare ''validator-3'' ''a3''))))
       = [pre_prepare, commit]
   \<and> map_option pre_prepared (pending (snd
        (handlePrepare test_env test_clock
           (snd (handlePrepare test_env test_clock (node_submitted ''ff'')
              (peer_prepare ''validator-2'' ''a2'')))
           (peer_prepare ''validator-3'' ''a3'')))
        (hashTransaction test_env demo_tx)) = Some False"
proof -
  let ?d = "hashTransaction test_env demo_tx"
  let ?w3 = "snd (handlePrepare test_env test_clock
               (snd (handlePrepare test_env test_clock (node_submitted ''ff'')
                  (peer_prepare ''validator-2'' ''a2'')))
               (peer_prepare ''validator-3'' ''a3''))"
  have 1: "fst (submitTransaction test_env test_clock 1700000000000 (node_start ''ff'') demo_tx)
            = Inr ()"
    by (simp add: pbft_run_defs)
  have 2: "map msg_type (message_log (node_submitted ''ff'')) = [pre_prepare]"
    by (simp add: pbft_run_defs)
  have 3: "map_option pre_prepared (pending (node_submitted ''ff'') ?d) = Some False"
    by (simp add: pbft_run_defs)
  have 4: "map msg_type (message_log ?w3) = [pre_prepare, commit]"
    by (simp add: pbft_run_defs)
  have 5: "map_option pre_prepared (pending ?w3 ?d) = Some False"
    by (simp add: pbft_run_defs)
  from 1 2 3 4 5 show ?thesis by blast
qed

end
